theory Spec2Isabelle
  imports Main "HOL-Library.Word"
begin

section \<open>JavaScript values\<close>

text \<open>
  A JavaScript string is a sequence of UTF-16 code units; a byte of a \<open>Buffer\<close> is an
  8-bit word. Values that reach the code through JSON (request bodies, profile records)
  are kept as \<open>jsval\<close>, so that the truthiness tests and \<open>typeof\<close> checks of the
  source are branches of the model. \<open>JObject\<close> stands for every object or array;
  \<open>JNum\<close> carries the integral numbers, which is all the code below distinguishes
  (zero is falsy, every other number is truthy and not a string).
\<close>

type_synonym jsstring = "16 word list"
type_synonym byte = "8 word"

datatype jsval = JUndefined | JNull | JBool bool | JNum int | JStr jsstring | JObject

fun truthy :: "jsval \<Rightarrow> bool" where
  "truthy JUndefined = False"
| "truthy JNull = False"
| "truthy (JBool b) = b"
| "truthy (JNum n) = (n \<noteq> 0)"
| "truthy (JStr s) = (s \<noteq> [])"
| "truthy JObject = True"

text \<open>\<open>typeof v === 'string'\<close>\<close>

fun is_string :: "jsval \<Rightarrow> bool" where
  "is_string (JStr s) = True"
| "is_string v = False"

text \<open>An ASCII literal of the source as a JavaScript string.\<close>

definition js :: "string \<Rightarrow> jsstring" where
  "js s = map (\<lambda>c. of_nat (of_char c)) s"

text \<open>
  Exceptions are values: a computation either returns or throws. \<open>try { ... } catch\<close>
  is a case distinction on the outcome.
\<close>

datatype js_error =
  TypeError | CryptoError | JsonWebTokenError | TokenExpiredError | FetchError | JsonError
  | NoAdminError | SheetsApiError

datatype 'a outcome = Returned 'a | Thrown js_error

section \<open>Text encodings of the Node.js runtime\<close>

subsection \<open>UTF-8\<close>

text \<open>
  \<open>cipher.update(plaintext, 'utf8')\<close> and \<open>Buffer.prototype.toString()\<close> convert
  between UTF-16 strings and UTF-8 bytes. Encoding replaces an unpaired surrogate by
  U+FFFD (bytes EF BF BD); decoding follows the WHATWG UTF-8 decoder: every maximal
  ill-formed prefix becomes one U+FFFD and decoding resumes at the offending byte.
  The functions work on the numeric values of code units and bytes.
\<close>

definition utf8_cp :: "nat \<Rightarrow> nat list" where
  "utf8_cp c =
     (if c < 0x80 then [c]
      else if c < 0x800 then [0xC0 + c div 64, 0x80 + c mod 64]
      else if c < 0x10000 then [0xE0 + c div 4096, 0x80 + (c div 64) mod 64, 0x80 + c mod 64]
      else [0xF0 + c div 262144, 0x80 + (c div 4096) mod 64, 0x80 + (c div 64) mod 64,
            0x80 + c mod 64])"

definition high_surrogate :: "nat \<Rightarrow> bool" where
  "high_surrogate u = (0xD800 \<le> u \<and> u \<le> 0xDBFF)"

definition low_surrogate :: "nat \<Rightarrow> bool" where
  "low_surrogate u = (0xDC00 \<le> u \<and> u \<le> 0xDFFF)"

fun utf8_units :: "nat list \<Rightarrow> nat list" where
  "utf8_units [] = []"
| "utf8_units [u] =
     (if high_surrogate u \<or> low_surrogate u then [0xEF, 0xBF, 0xBD] else utf8_cp u)"
| "utf8_units (u # v # rest) =
     (if high_surrogate u then
        (if low_surrogate v
         then utf8_cp (0x10000 + (u - 0xD800) * 1024 + (v - 0xDC00)) @ utf8_units rest
         else [0xEF, 0xBF, 0xBD] @ utf8_units (v # rest))
      else if low_surrogate u then [0xEF, 0xBF, 0xBD] @ utf8_units (v # rest)
      else utf8_cp u @ utf8_units (v # rest))"

definition utf8_encode :: "jsstring \<Rightarrow> byte list" where
  "utf8_encode s = map of_nat (utf8_units (map unat s))"

definition continuation :: "nat \<Rightarrow> bool" where
  "continuation b = (0x80 \<le> b \<and> b \<le> 0xBF)"

text \<open>
  One step of the decoder on lead byte \<open>b\<close> followed by \<open>bs\<close>: the code point
  emitted and the number of bytes of \<open>bs\<close> consumed with it.
\<close>

definition utf8_step :: "nat \<Rightarrow> nat list \<Rightarrow> nat \<times> nat" where
  "utf8_step b bs =
     (if b < 0x80 then (b, 0)
      else if 0xC2 \<le> b \<and> b \<le> 0xDF then
        (case bs of
           [] \<Rightarrow> (0xFFFD, 0)
         | c1 # r1 \<Rightarrow>
             if continuation c1 then ((b mod 32) * 64 + c1 mod 64, 1) else (0xFFFD, 0))
      else if 0xE0 \<le> b \<and> b \<le> 0xEF then
        (case bs of
           [] \<Rightarrow> (0xFFFD, 0)
         | c1 # r1 \<Rightarrow>
             if (if b = 0xE0 then 0xA0 else 0x80) \<le> c1 \<and> c1 \<le> (if b = 0xED then 0x9F else 0xBF) then
               (case r1 of
                  [] \<Rightarrow> (0xFFFD, 1)
                | c2 # r2 \<Rightarrow>
                    if continuation c2
                    then (((b mod 16) * 64 + c1 mod 64) * 64 + c2 mod 64, 2)
                    else (0xFFFD, 1))
             else (0xFFFD, 0))
      else if 0xF0 \<le> b \<and> b \<le> 0xF4 then
        (case bs of
           [] \<Rightarrow> (0xFFFD, 0)
         | c1 # r1 \<Rightarrow>
             if (if b = 0xF0 then 0x90 else 0x80) \<le> c1 \<and> c1 \<le> (if b = 0xF4 then 0x8F else 0xBF) then
               (case r1 of
                  [] \<Rightarrow> (0xFFFD, 1)
                | c2 # r2 \<Rightarrow>
                    if continuation c2 then
                      (case r2 of
                         [] \<Rightarrow> (0xFFFD, 2)
                       | c3 # r3 \<Rightarrow>
                           if continuation c3
                           then ((((b mod 8) * 64 + c1 mod 64) * 64 + c2 mod 64) * 64 + c3 mod 64, 3)
                           else (0xFFFD, 2))
                    else (0xFFFD, 1))
             else (0xFFFD, 0))
      else (0xFFFD, 0))"

fun utf8_cps :: "nat list \<Rightarrow> nat list" where
  "utf8_cps [] = []"
| "utf8_cps (b # bs) = (case utf8_step b bs of (cp, k) \<Rightarrow> cp # utf8_cps (drop k bs))"

definition utf16_cp :: "nat \<Rightarrow> nat list" where
  "utf16_cp c =
     (if c < 0x10000 then [c]
      else [0xD800 + (c - 0x10000) div 1024, 0xDC00 + (c - 0x10000) mod 1024])"

definition utf8_decode :: "byte list \<Rightarrow> jsstring" where
  "utf8_decode bs = map of_nat (concat (map utf16_cp (utf8_cps (map unat bs))))"

text \<open>A string is well formed when every surrogate code unit is part of a pair.\<close>

fun wf_units :: "nat list \<Rightarrow> bool" where
  "wf_units [] = True"
| "wf_units [u] = (\<not> high_surrogate u \<and> \<not> low_surrogate u)"
| "wf_units (u # v # rest) =
     (if high_surrogate u then low_surrogate v \<and> wf_units rest
      else \<not> low_surrogate u \<and> wf_units (v # rest))"

definition well_formed :: "jsstring \<Rightarrow> bool" where
  "well_formed s = wf_units (map unat s)"

definition scalar :: "nat \<Rightarrow> bool" where
  "scalar c = (c < 0x110000 \<and> \<not> (0xD800 \<le> c \<and> c \<le> 0xDFFF))"

subsection \<open>base64url\<close>

text \<open>
  \<open>buf.toString('base64url')\<close> writes three bytes as four characters of the URL-safe
  alphabet and omits the padding. \<open>Buffer.from(s, 'base64url')\<close> is lenient: the decoder
  casts every UTF-16 code unit to a byte (it reads the low eight bits of the unit), accepts
  both alphabets, skips every other byte and stops at the first \<open>=\<close>; it never throws on
  a string.
\<close>

fun b64_groups :: "nat list \<Rightarrow> nat list" where
  "b64_groups (a # b # c # rest) =
     [a div 4, (a mod 4) * 16 + b div 16, (b mod 16) * 4 + c div 64, c mod 64] @ b64_groups rest"
| "b64_groups [a, b] = [a div 4, (a mod 4) * 16 + b div 16, (b mod 16) * 4]"
| "b64_groups [a] = [a div 4, (a mod 4) * 16]"
| "b64_groups [] = []"

fun b64_bytes :: "nat list \<Rightarrow> nat list" where
  "b64_bytes (p # q # r # s # rest) =
     [p * 4 + q div 16, (q mod 16) * 16 + r div 4, (r mod 4) * 64 + s] @ b64_bytes rest"
| "b64_bytes [p, q, r] = [p * 4 + q div 16, (q mod 16) * 16 + r div 4]"
| "b64_bytes [p, q] = [p * 4 + q div 16]"
| "b64_bytes [p] = []"
| "b64_bytes [] = []"

definition b64url_char :: "nat \<Rightarrow> 16 word" where
  "b64url_char n =
     of_nat (if n < 26 then 65 + n
             else if n < 52 then 97 + (n - 26)
             else if n < 62 then 48 + (n - 52)
             else if n = 62 then 45
             else 95)"

definition low_byte :: "16 word \<Rightarrow> nat" where
  "low_byte c = unat c mod 256"

definition unbase64 :: "16 word \<Rightarrow> nat option" where
  "unbase64 c =
     (let u = low_byte c in
      if 65 \<le> u \<and> u \<le> 90 then Some (u - 65)
      else if 97 \<le> u \<and> u \<le> 122 then Some (u - 97 + 26)
      else if 48 \<le> u \<and> u \<le> 57 then Some (u - 48 + 52)
      else if u = 43 \<or> u = 45 then Some 62
      else if u = 47 \<or> u = 95 then Some 63
      else None)"

definition b64url_encode :: "byte list \<Rightarrow> jsstring" where
  "b64url_encode bs = map b64url_char (b64_groups (map unat bs))"

definition b64_sextets :: "jsstring \<Rightarrow> nat list" where
  "b64_sextets s = List.map_filter unbase64 (takeWhile (\<lambda>c. low_byte c \<noteq> 61) s)"

definition b64url_decode :: "jsstring \<Rightarrow> byte list" where
  "b64url_decode s = map of_nat (b64_bytes (b64_sextets s))"

text \<open>The characters that need no escaping in a URL: letters, digits, \<open>-\<close> and \<open>_\<close>.\<close>

definition url_safe :: "16 word \<Rightarrow> bool" where
  "url_safe c =
     (let u = unat c in
      (65 \<le> u \<and> u \<le> 90) \<or> (97 \<le> u \<and> u \<le> 122) \<or> (48 \<le> u \<and> u \<le> 57) \<or> u = 45 \<or> u = 95)"

subsection \<open>String methods\<close>

text \<open>
  \<open>String.prototype.trim\<close> removes the ECMAScript white space and line terminators
  from both ends; \<open>split(',')\<close> cuts at every comma; \<open>startsWith\<close> compares a prefix.
\<close>

definition js_space :: "16 word \<Rightarrow> bool" where
  "js_space c =
     (c \<in> set [0x9, 0xA, 0xB, 0xC, 0xD, 0x20, 0xA0, 0x1680, 0x2028, 0x2029, 0x202F, 0x205F,
               0x3000, 0xFEFF]
      \<or> (0x2000 \<le> c \<and> c \<le> 0x200A))"

definition js_trim :: "jsstring \<Rightarrow> jsstring" where
  "js_trim s = rev (dropWhile js_space (rev (dropWhile js_space s)))"

fun js_split :: "16 word \<Rightarrow> jsstring \<Rightarrow> jsstring list" where
  "js_split sep [] = [[]]"
| "js_split sep (c # cs) =
     (if c = sep then [] # js_split sep cs
      else (case js_split sep cs of
              [] \<Rightarrow> [[c]]
            | p # ps \<Rightarrow> (c # p) # ps))"


text \<open>\<open>buf.subarray(start, end)\<close> clamps both indices to the buffer.\<close>

definition subarray :: "nat \<Rightarrow> nat \<Rightarrow> 'a list \<Rightarrow> 'a list" where
  "subarray start stop buf = take (stop - start) (drop start buf)"

section \<open>The session credential and the libraries the code calls\<close>

text \<open>
  The payload of the JSON Web Token, as \<open>req.user\<close> holds it after verification.
  \<open>encryptedGoogleToken\<close> and \<open>googleTokenExpiresAt\<close> are read by the second
  revision of the token store; a payload without them has \<open>None\<close> there.
\<close>

record claims =
  userId :: jsstring
  name :: jsval
  email :: jsstring
  picture :: jsval
  role :: jsstring
  encryptedGoogleToken :: "jsstring option"
  googleTokenExpiresAt :: "int option"

text \<open>
  Functions of the JavaScript runtime and of the npm packages that the repository calls
  and does not define: \<open>String.prototype.toLowerCase\<close>, SHA-256, AES-256-GCM
  (\<open>gcm_seal key iv plaintext\<close> is the ciphertext and the authentication tag of
  \<open>createCipheriv\<close>/\<open>update\<close>/\<open>final\<close>/\<open>getAuthTag\<close>; \<open>gcm_open key iv tag
  ciphertext\<close> is \<open>createDecipheriv\<close>/\<open>setAuthTag\<close>/\<open>update\<close>/\<open>final\<close>, which
  throw on an unusable nonce or tag and on a tag that does not verify), and
  \<open>jwt.sign\<close>/\<open>jwt.verify\<close> of the jsonwebtoken package. They are parameters of
  everything below.
\<close>

record runtime =
  toLowerCase :: "jsstring \<Rightarrow> jsstring"
  sha256 :: "byte list \<Rightarrow> byte list"
  gcm_seal :: "byte list \<Rightarrow> byte list \<Rightarrow> byte list \<Rightarrow> byte list \<times> byte list"
  gcm_open :: "byte list \<Rightarrow> byte list \<Rightarrow> byte list \<Rightarrow> byte list \<Rightarrow> (byte list) outcome"
  jwt_sign :: "claims \<Rightarrow> jsstring option \<Rightarrow> jsstring \<Rightarrow> jsstring outcome"
  jwt_verify :: "jsstring \<Rightarrow> jsstring option \<Rightarrow> claims outcome"

text \<open>\<open>process.env\<close>: a variable that is not set is \<open>None\<close>.\<close>

record env =
  JWT_SECRET :: "jsstring option"
  JWT_EXPIRES_IN :: "jsstring option"
  ADMIN_EMAILS :: "jsstring option"

text \<open>\<open>process.env.X || dflt\<close>\<close>

definition or_default :: "jsstring option \<Rightarrow> jsstring \<Rightarrow> jsstring" where
  "or_default v dflt = (case v of None \<Rightarrow> dflt | Some s \<Rightarrow> if s = [] then dflt else s)"

text \<open>
  The request as the handlers read it: the \<open>Authorization\<close> header, \<open>req.body\<close> and
  \<open>req.user\<close>. \<open>req.body\<close> is what the body parser left: \<open>None\<close> when it is
  \<open>undefined\<close> (no body was parsed), otherwise the parsed object, of which the handlers
  read the property \<open>googleAccessToken\<close> (\<open>JUndefined\<close> when the object has none).
\<close>

record json_body =
  googleAccessToken :: jsval

record request =
  authorization :: "jsstring option"
  req_body :: "json_body option"
  user :: "claims option"

section \<open>config/tokenStore.js, first revision: the in-memory store\<close>

text \<open>
  \<open>const store = new Map()\<close> maps a user id to \<open>{ googleToken, expiresAt }\<close>.
  \<open>Date.now()\<close> is the parameter \<open>now\<close> (milliseconds).
\<close>

record entry =
  googleToken :: jsval
  expiresAt :: int

type_synonym token_map = "jsstring \<rightharpoonup> entry"

definition GOOGLE_TOKEN_TTL_MS :: int where
  "GOOGLE_TOKEN_TTL_MS = 55 * 60 * 1000"

definition tokenStore_set :: "int \<Rightarrow> jsstring \<Rightarrow> jsval \<Rightarrow> token_map \<Rightarrow> token_map" where
  "tokenStore_set now uid tok store =
     store(uid \<mapsto> \<lparr>googleToken = tok, expiresAt = now + GOOGLE_TOKEN_TTL_MS\<rparr>)"

definition tokenStore_get :: "int \<Rightarrow> jsstring \<Rightarrow> token_map \<Rightarrow> jsval \<times> token_map" where
  "tokenStore_get now uid store =
     (case store uid of
        None \<Rightarrow> (JNull, store)
      | Some e \<Rightarrow>
          if now > expiresAt e then (JNull, store(uid := None))
          else (googleToken e, store))"

definition tokenStore_has :: "int \<Rightarrow> jsstring \<Rightarrow> token_map \<Rightarrow> bool \<times> token_map" where
  "tokenStore_has now uid store =
     (case tokenStore_get now uid store of (v, store') \<Rightarrow> (v \<noteq> JNull, store'))"

definition tokenStore_delete :: "jsstring \<Rightarrow> token_map \<Rightarrow> token_map" where
  "tokenStore_delete uid store = store(uid := None)"

definition tokenStore_isExpiringSoon :: "int \<Rightarrow> jsstring \<Rightarrow> token_map \<Rightarrow> bool" where
  "tokenStore_isExpiringSoon now uid store =
     (case store uid of
        None \<Rightarrow> True
      | Some e \<Rightarrow> expiresAt e - now < 5 * 60 * 1000)"

section \<open>config/tokenStore.js, second revision: the token encrypted inside the JWT\<close>

definition getKey :: "runtime \<Rightarrow> env \<Rightarrow> byte list" where
  "getKey rt ev =
     sha256 rt (utf8_encode (or_default (JWT_SECRET ev) (js ''fallback-secret-change-me'')))"

definition IV_BYTES :: nat where
  "IV_BYTES = 12"

definition TAG_BYTES :: nat where
  "TAG_BYTES = 16"

text \<open>
  \<open>randomBytes(n)\<close> draws \<open>n\<close> bytes from the system's entropy; \<open>rnd\<close> is the
  entropy one call sees.
\<close>

definition randomBytes :: "nat \<Rightarrow> (nat \<Rightarrow> byte) \<Rightarrow> byte list" where
  "randomBytes n rnd = map rnd [0..<n]"

definition encryptToken :: "runtime \<Rightarrow> env \<Rightarrow> (nat \<Rightarrow> byte) \<Rightarrow> jsstring \<Rightarrow> jsstring" where
  "encryptToken rt ev rnd plaintext =
     (let iv = randomBytes IV_BYTES rnd in
      case gcm_seal rt (getKey rt ev) iv (utf8_encode plaintext) of
        (enc, tag) \<Rightarrow> b64url_encode (iv @ tag @ enc))"

text \<open>
  The three parts \<open>decryptToken\<close> cuts the decoded buffer into: nonce, tag, ciphertext.
\<close>

definition splitBlob :: "byte list \<Rightarrow> byte list \<times> byte list \<times> byte list" where
  "splitBlob buf =
     (subarray 0 IV_BYTES buf,
      subarray IV_BYTES (IV_BYTES + TAG_BYTES) buf,
      drop (IV_BYTES + TAG_BYTES) buf)"

text \<open>
  The body of the \<open>try\<close> block. In GCM \<open>decipher.final\<close> adds no bytes, so the
  returned string is \<open>decipher.update(ciphertext)\<close> converted by \<open>+\<close>, that is,
  decoded as UTF-8.
\<close>

definition decryptToken_try :: "runtime \<Rightarrow> env \<Rightarrow> jsstring \<Rightarrow> jsstring outcome" where
  "decryptToken_try rt ev blob =
     (case splitBlob (b64url_decode blob) of
        (iv, tag, ciphertext) \<Rightarrow>
          (case gcm_open rt (getKey rt ev) iv tag ciphertext of
             Thrown e \<Rightarrow> Thrown e
           | Returned pt \<Rightarrow> Returned (utf8_decode pt)))"

definition decryptToken :: "runtime \<Rightarrow> env \<Rightarrow> jsstring \<Rightarrow> jsval outcome" where
  "decryptToken rt ev blob =
     (case decryptToken_try rt ev blob of
        Returned s \<Rightarrow> Returned (JStr s)
      | Thrown e \<Rightarrow> Returned JNull)"

definition tokenStore_encrypt :: "runtime \<Rightarrow> env \<Rightarrow> (nat \<Rightarrow> byte) \<Rightarrow> jsstring \<Rightarrow> jsstring" where
  "tokenStore_encrypt rt ev rnd tok = encryptToken rt ev rnd tok"

text \<open>\<open>req?.user?.encryptedGoogleToken\<close> and \<open>req?.user?.googleTokenExpiresAt\<close>\<close>

definition req_blob :: "request option \<Rightarrow> jsstring option" where
  "req_blob req =
     (case req of
        None \<Rightarrow> None
      | Some r \<Rightarrow> (case user r of None \<Rightarrow> None | Some u \<Rightarrow> encryptedGoogleToken u))"

definition req_exp :: "request option \<Rightarrow> int option" where
  "req_exp req =
     (case req of
        None \<Rightarrow> None
      | Some r \<Rightarrow> (case user r of None \<Rightarrow> None | Some u \<Rightarrow> googleTokenExpiresAt u))"

text \<open>The fallback of \<open>get\<close>: the in-memory cache \<open>_mem\<close> of the warm instance.\<close>

definition mem_get :: "int \<Rightarrow> jsstring \<Rightarrow> token_map \<Rightarrow> jsval outcome \<times> token_map" where
  "mem_get now uid mem =
     (case mem uid of
        None \<Rightarrow> (Returned JNull, mem)
      | Some e \<Rightarrow>
          if now > expiresAt e then (Returned JNull, mem(uid := None))
          else (Returned (googleToken e), mem))"

definition tokenStore_get_jwt ::
  "runtime \<Rightarrow> env \<Rightarrow> int \<Rightarrow> jsstring \<Rightarrow> request option \<Rightarrow> token_map
     \<Rightarrow> jsval outcome \<times> token_map" where
  "tokenStore_get_jwt rt ev now uid req mem =
     (case req_blob req of
        None \<Rightarrow> mem_get now uid mem
      | Some blob \<Rightarrow>
          if blob = [] then mem_get now uid mem
          else
            (case decryptToken rt ev blob of
               Thrown e \<Rightarrow> (Thrown e, mem)
             | Returned tok \<Rightarrow>
                 if truthy tok
                 then (Returned tok,
                       mem(uid \<mapsto> \<lparr>googleToken = tok, expiresAt = now + GOOGLE_TOKEN_TTL_MS\<rparr>))
                 else mem_get now uid mem))"

definition tokenStore_set_jwt :: "int \<Rightarrow> jsstring \<Rightarrow> jsval \<Rightarrow> token_map \<Rightarrow> token_map" where
  "tokenStore_set_jwt now uid tok mem =
     mem(uid \<mapsto> \<lparr>googleToken = tok, expiresAt = now + GOOGLE_TOKEN_TTL_MS\<rparr>)"

definition tokenStore_delete_jwt :: "jsstring \<Rightarrow> token_map \<Rightarrow> token_map" where
  "tokenStore_delete_jwt uid mem = mem(uid := None)"

definition tokenStore_isExpiringSoon_jwt ::
  "int \<Rightarrow> jsstring \<Rightarrow> request option \<Rightarrow> token_map \<Rightarrow> bool" where
  "tokenStore_isExpiringSoon_jwt now uid req mem =
     (let fallback = (case mem uid of
                        None \<Rightarrow> True
                      | Some e \<Rightarrow> expiresAt e - now < 5 * 60 * 1000)
      in case req_exp req of
           None \<Rightarrow> fallback
         | Some x \<Rightarrow> if x \<noteq> 0 then x - now < 5 * 60 * 1000 else fallback)"

section \<open>HTTP: responses, outbound requests, process state\<close>

datatype resp_body =
    ErrorBody jsstring
  | ErrorCodeBody jsstring jsstring
  | SessionBody jsstring claims jsstring
  | SuccessBody
  | SuccessMessageBody jsstring

text \<open>
  \<open>res.status(n).json(b)\<close>; \<open>res.json(b)\<close> alone answers 200. \<open>SessionBody\<close> is
  \<open>{ token, user, tokenExpiresIn }\<close>, the only body that carries a signed credential.
\<close>

record response =
  status :: nat
  body :: resp_body

text \<open>
  The credential a handler hands to the client: the token of a session body; none when
  the handler answers anything else or throws.
\<close>

definition credential_of :: "response outcome \<Rightarrow> jsstring option" where
  "credential_of r =
     (case r of
        Returned x \<Rightarrow> (case body x of SessionBody t u e \<Rightarrow> Some t | _ \<Rightarrow> None)
      | Thrown e \<Rightarrow> None)"

text \<open>
  What an awaited \<open>fetch\<close> gives: the promise rejects, or it resolves to a response with
  a status code and a body; \<open>None\<close> is a body on which \<open>res.json()\<close> rejects (or that
  parses to a value without properties). \<open>res.ok\<close> is a status of 200 to 299.
\<close>

datatype 'a fetched = Rejected | Response nat "'a option"

definition resp_ok :: "nat \<Rightarrow> bool" where
  "resp_ok code = (200 \<le> code \<and> code \<le> 299)"

text \<open>The profile record of the identity endpoint, field by field as the code reads it.\<close>

record profile =
  p_email :: jsval
  p_name :: jsval
  p_given_name :: jsval
  p_picture :: jsval

text \<open>
  The requests \<open>userStore.js\<close> sends to the spreadsheet API on the login path, and the
  parts of the JSON answers it reads, typed as the API documents them: the tab titles of
  \<open>meta.sheets\<close> and the rows of string cells of \<open>data.values\<close> (\<open>None\<close> when the
  answer has no \<open>values\<close>).
\<close>

datatype sheet_call = GetMeta | AddSheet | PutHeaders | GetValues

datatype sheets_json = MetaJson "jsstring list" | ValuesJson "jsstring list list option" | AckJson

text \<open>
  The services outside the process, as functions of what is sent to them: the identity
  endpoint answers an access token, the spreadsheet API answers a request made with a
  bearer token.
\<close>

record world =
  userinfo :: "jsval \<Rightarrow> profile fetched"
  sheets :: "sheet_call \<Rightarrow> jsval \<Rightarrow> sheets_json fetched"

datatype outbound = UserinfoCall jsval | SheetsCall sheet_call jsval

record user_row =
  rowIndex :: nat
  row_email :: jsstring
  row_role :: jsstring
  addedBy :: jsstring
  addedAt :: jsstring

text \<open>
  The module-level variables of \<open>tokenStore.js\<close> and \<open>userStore.js\<close>, and the list of
  outbound requests sent so far (\<open>calls\<close>, oldest first), which records the order of
  effects. A handler reads \<open>Date.now()\<close> as the parameter \<open>now\<close>: one request is
  handled at one instant.
\<close>

record server =
  store :: token_map
  adminEmail :: "jsstring option"
  cache :: "(jsstring \<rightharpoonup> user_row) option"
  cacheTime :: int
  calls :: "outbound list"

section \<open>middleware/auth.js\<close>


definition requireAdmin :: "claims option \<Rightarrow> response option" where
  "requireAdmin u =
     (if (case u of None \<Rightarrow> True | Some c \<Rightarrow> role c \<noteq> js ''admin'')
      then Some \<lparr>status = 403, body = ErrorBody (js ''Admin access required'')\<rparr>
      else None)"

section \<open>config/userStore.js\<close>

definition USERS_TAB :: jsstring where
  "USERS_TAB = [0x627, 0x644, 0x645, 0x633, 0x62A, 0x62E, 0x62F, 0x645, 0x648, 0x646]"

definition TTL_MS :: int where
  "TTL_MS = 60000"

definition setAdminEmail :: "jsstring \<Rightarrow> server \<Rightarrow> server" where
  "setAdminEmail em st = st\<lparr>adminEmail := Some em\<rparr>"

text \<open>
  \<open>(process.env.ADMIN_EMAILS || '').split(',').map(x => x.trim().toLowerCase())
  .filter(Boolean)\<close>: the expression behind \<open>ADMIN_EMAILS\<close> and \<open>BOOTSTRAP_ADMINS\<close> of
  the two revisions of \<open>routes/auth.js\<close> and \<open>bootstrapAdmins\<close> of \<open>userStore.js\<close>.
\<close>

definition bootstrapAdmins :: "runtime \<Rightarrow> env \<Rightarrow> jsstring list" where
  "bootstrapAdmins rt ev =
     filter (\<lambda>x. x \<noteq> [])
       (map (\<lambda>x. toLowerCase rt (js_trim x)) (js_split 0x2C (or_default (ADMIN_EMAILS ev) [])))"

text \<open>
  \<open>adminEmail ? tokenStore.get(adminEmail) : null\<close>, which also drops an expired entry.
  The call passes no request, so both revisions of the token store answer it from the
  in-memory map.
\<close>

definition admin_token :: "int \<Rightarrow> server \<Rightarrow> jsval \<times> server" where
  "admin_token now st =
     (case adminEmail st of
        None \<Rightarrow> (JNull, st)
      | Some a \<Rightarrow>
          if a = [] then (JNull, st)
          else (case tokenStore_get now a (store st) of
                  (v, store') \<Rightarrow> (v, st\<lparr>store := store'\<rparr>)))"

definition sheetFetch ::
  "world \<Rightarrow> int \<Rightarrow> sheet_call \<Rightarrow> server \<Rightarrow> sheets_json outcome \<times> server" where
  "sheetFetch w now call st =
     (case admin_token now st of
        (tok, st1) \<Rightarrow>
          if \<not> truthy tok then (Thrown NoAdminError, st1)
          else
            (let st2 = st1\<lparr>calls := calls st1 @ [SheetsCall call tok]\<rparr> in
             case sheets w call tok of
               Rejected \<Rightarrow> (Thrown FetchError, st2)
             | Response code answer \<Rightarrow>
                 if \<not> resp_ok code
                 then (Thrown SheetsApiError,
                       if code = 401 then st2\<lparr>adminEmail := None\<rparr> else st2)
                 else (case answer of
                         None \<Rightarrow> (Thrown JsonError, st2)
                       | Some j \<Rightarrow> (Returned j, st2))))"

definition sheet_titles :: "sheets_json \<Rightarrow> jsstring list" where
  "sheet_titles j = (case j of MetaJson ts \<Rightarrow> ts | _ \<Rightarrow> [])"

definition sheet_values :: "sheets_json \<Rightarrow> jsstring list list option" where
  "sheet_values j = (case j of ValuesJson vs \<Rightarrow> vs | _ \<Rightarrow> None)"

definition ensureTab :: "world \<Rightarrow> int \<Rightarrow> server \<Rightarrow> unit outcome \<times> server" where
  "ensureTab w now st =
     (case sheetFetch w now GetMeta st of
        (Thrown e, s1) \<Rightarrow> (Thrown e, s1)
      | (Returned meta, s1) \<Rightarrow>
          if USERS_TAB \<in> set (sheet_titles meta) then (Returned (), s1)
          else
            (case sheetFetch w now AddSheet s1 of
               (Thrown e, s2) \<Rightarrow> (Thrown e, s2)
             | (Returned a, s2) \<Rightarrow>
                 (case sheetFetch w now PutHeaders s2 of
                    (Thrown e, s3) \<Rightarrow> (Thrown e, s3)
                  | (Returned b, s3) \<Rightarrow> (Returned (), s3))))"

text \<open>\<open>row[i] || ''\<close>\<close>

definition cell :: "jsstring list \<Rightarrow> nat \<Rightarrow> jsstring" where
  "cell r i = (if i < length r then r ! i else [])"

definition rows_of :: "runtime \<Rightarrow> sheets_json \<Rightarrow> user_row list" where
  "rows_of rt data =
     (case sheet_values data of
        None \<Rightarrow> []
      | Some vs \<Rightarrow>
          if length vs < 2 then []
          else filter (\<lambda>u. row_email u \<noteq> [])
                 (map (\<lambda>(i, r).
                         \<lparr>rowIndex = i + 2,
                          row_email = js_trim (toLowerCase rt (cell r 0)),
                          row_role = (if cell r 1 = [] then js ''user'' else cell r 1),
                          addedBy = cell r 2,
                          addedAt = cell r 3\<rparr>)
                      (zip [0..<length (tl vs)] (tl vs))))"

definition readAllRows ::
  "runtime \<Rightarrow> world \<Rightarrow> int \<Rightarrow> server \<Rightarrow> user_row list outcome \<times> server" where
  "readAllRows rt w now st =
     (case sheetFetch w now GetValues st of
        (Thrown e, s1) \<Rightarrow> (Thrown e, s1)
      | (Returned data, s1) \<Rightarrow> (Returned (rows_of rt data), s1))"

text \<open>\<open>new Map(rows.map(u => [u.email, u]))\<close>: a later row replaces an earlier one.\<close>

definition roster_map :: "user_row list \<Rightarrow> (jsstring \<rightharpoonup> user_row)" where
  "roster_map rows = map_of (rev (map (\<lambda>u. (row_email u, u)) rows))"

definition refreshCache ::
  "runtime \<Rightarrow> world \<Rightarrow> int \<Rightarrow> server \<Rightarrow> user_row list outcome \<times> server" where
  "refreshCache rt w now st =
     (case ensureTab w now st of
        (Thrown e, s1) \<Rightarrow> (Thrown e, s1)
      | (Returned u, s1) \<Rightarrow>
          (case readAllRows rt w now s1 of
             (Thrown e, s2) \<Rightarrow> (Thrown e, s2)
           | (Returned rows, s2) \<Rightarrow>
               (Returned rows, s2\<lparr>cache := Some (roster_map rows), cacheTime := now\<rparr>)))"

text \<open>
  What \<open>lookupUser\<close> resolves to: \<open>{ email, role: 'admin' }\<close> for a bootstrap
  administrator, the cached row for a roster member, \<open>null\<close> otherwise.
\<close>

datatype found_user = BootstrapAdmin jsstring | RosterUser user_row

fun found_role :: "found_user \<Rightarrow> jsstring" where
  "found_role (BootstrapAdmin e) = js ''admin''"
| "found_role (RosterUser u) = row_role u"

definition lookupUser ::
  "runtime \<Rightarrow> env \<Rightarrow> world \<Rightarrow> int \<Rightarrow> jsstring \<Rightarrow> server
     \<Rightarrow> found_user option outcome \<times> server" where
  "lookupUser rt ev w now em st =
     (let e = js_trim (toLowerCase rt em) in
      if e \<in> set (bootstrapAdmins rt ev) then (Returned (Some (BootstrapAdmin e)), st)
      else
        (case admin_token now st of
           (tok, st1) \<Rightarrow>
             if \<not> truthy tok then (Returned None, st1)
             else
               (case (if cache st1 = None \<or> now - cacheTime st1 > TTL_MS
                      then refreshCache rt w now st1
                      else (Returned [], st1)) of
                  (Thrown err, st2) \<Rightarrow> (Thrown err, st2)
                | (Returned rows, st2) \<Rightarrow>
                    (Returned (case cache st2 of
                                 None \<Rightarrow> None
                               | Some c \<Rightarrow> map_option RosterUser (c e)),
                     st2))))"

definition isReady :: "int \<Rightarrow> server \<Rightarrow> bool \<times> server" where
  "isReady now st = (case admin_token now st of (tok, st1) \<Rightarrow> (truthy tok, st1))"

section \<open>routes/auth.js\<close>

text \<open>
  \<open>(profile.email || '').toLowerCase().trim()\<close>: a falsy \<open>email\<close> gives the empty
  string, a string is normalised, any other truthy value has no \<open>toLowerCase\<close> and the
  call throws.
\<close>

definition profile_email :: "runtime \<Rightarrow> profile \<Rightarrow> jsstring outcome" where
  "profile_email rt p =
     (case p_email p of
        JStr s \<Rightarrow> Returned (js_trim (toLowerCase rt s))
      | v \<Rightarrow> if truthy v then Thrown TypeError else Returned (js_trim (toLowerCase rt [])))"

text \<open>\<open>a || b\<close>\<close>

definition js_or :: "jsval \<Rightarrow> jsval \<Rightarrow> jsval" where
  "js_or a b = (if truthy a then a else b)"

definition jwtPayload :: "profile \<Rightarrow> jsstring \<Rightarrow> jsstring \<Rightarrow> claims" where
  "jwtPayload p em r =
     \<lparr>userId = em,
      name = js_or (p_name p) (js_or (p_given_name p) (JStr em)),
      email = em,
      picture = js_or (p_picture p) JNull,
      role = r,
      encryptedGoogleToken = None,
      googleTokenExpiresAt = None\<rparr>"

definition msg_token_required :: jsstring where
  "msg_token_required = js ''googleAccessToken is required''"

definition msg_auth_failed :: jsstring where
  "msg_auth_failed = js ''Authentication failed. Please try again.''"

text \<open>The Arabic message of the 403 answer of \<open>/verify\<close>, as UTF-16 code units.\<close>

definition msg_not_authorised :: jsstring where
  "msg_not_authorised =
     [0x63A, 0x64A, 0x631, 0x20, 0x645, 0x635, 0x631, 0x62D, 0x20, 0x644, 0x643, 0x20, 0x628,
      0x627, 0x644, 0x62F, 0x62E, 0x648, 0x644, 0x2E, 0x20, 0x62A, 0x648, 0x627, 0x635, 0x644,
      0x20, 0x645, 0x639, 0x20, 0x627, 0x644, 0x645, 0x62F, 0x64A, 0x631, 0x20, 0x644, 0x625,
      0x636, 0x627, 0x641, 0x62A, 0x643, 0x2E]"

text \<open>
  A handler answers (\<open>Returned\<close>) or throws (\<open>Thrown\<close>). The handlers of \<open>/verify\<close>
  and \<open>/refresh-google\<close> begin with \<open>const { googleAccessToken } = req.body\<close>, before
  the validation and outside the \<open>try\<close> block: when \<open>req.body\<close> is \<open>undefined\<close> the
  destructuring throws a \<open>TypeError\<close> and the handler sends no answer of its own.
  \<open>requireAuth\<close> runs before the handler of \<open>/refresh-google\<close>.
\<close>

subsection \<open>First revision (src/routes/auth.js): roles from \<open>ADMIN_EMAILS\<close> alone\<close>

definition post_verify_r1 ::
  "runtime \<Rightarrow> env \<Rightarrow> world \<Rightarrow> int \<Rightarrow> request \<Rightarrow> server \<Rightarrow> response outcome \<times> server" where
  "post_verify_r1 rt ev w now req st =
     (case req_body req of
        None \<Rightarrow> (Thrown TypeError, st)
      | Some b \<Rightarrow>
          (let tok = googleAccessToken b in
           if \<not> truthy tok \<or> \<not> is_string tok
           then (Returned \<lparr>status = 400, body = ErrorBody msg_token_required\<rparr>, st)
           else
             (let st1 = st\<lparr>calls := calls st @ [UserinfoCall tok]\<rparr>;
                  failed = Returned \<lparr>status = 500, body = ErrorBody msg_auth_failed\<rparr>
              in case userinfo w tok of
                   Rejected \<Rightarrow> (failed, st1)
                 | Response code answer \<Rightarrow>
                     if \<not> resp_ok code
                     then (Returned \<lparr>status = 401, body = ErrorBody (js ''Invalid or expired Google token'')\<rparr>,
                           st1)
                     else
                       (case answer of
                          None \<Rightarrow> (failed, st1)
                        | Some p \<Rightarrow>
                            (case profile_email rt p of
                               Thrown e \<Rightarrow> (failed, st1)
                             | Returned em \<Rightarrow>
                                 if em = []
                                 then (Returned \<lparr>status = 401,
                                                 body = ErrorBody (js ''Could not retrieve email from Google'')\<rparr>,
                                       st1)
                                 else
                                   (let r = (if em \<in> set (bootstrapAdmins rt ev)
                                             then js ''admin'' else js ''user'');
                                        st2 = st1\<lparr>store := tokenStore_set now em tok (store st1)\<rparr>;
                                        payload = jwtPayload p em r;
                                        expiresIn = or_default (JWT_EXPIRES_IN ev) (js ''8h'')
                                    in case jwt_sign rt payload (JWT_SECRET ev) expiresIn of
                                         Thrown e \<Rightarrow> (failed, st2)
                                       | Returned t \<Rightarrow>
                                           (Returned \<lparr>status = 200, body = SessionBody t payload expiresIn\<rparr>,
                                            st2)))))))"


subsection \<open>Second revision (src/unnamed/part_000): roles from the roster\<close>

definition post_verify_r2 ::
  "runtime \<Rightarrow> env \<Rightarrow> world \<Rightarrow> int \<Rightarrow> request \<Rightarrow> server \<Rightarrow> response outcome \<times> server" where
  "post_verify_r2 rt ev w now req st =
     (case req_body req of
        None \<Rightarrow> (Thrown TypeError, st)
      | Some b \<Rightarrow>
          (let tok = googleAccessToken b in
           if \<not> truthy tok \<or> \<not> is_string tok
           then (Returned \<lparr>status = 400, body = ErrorBody msg_token_required\<rparr>, st)
           else
             (let st1 = st\<lparr>calls := calls st @ [UserinfoCall tok]\<rparr>;
                  failed = Returned \<lparr>status = 500, body = ErrorBody msg_auth_failed\<rparr>
              in case userinfo w tok of
                   Rejected \<Rightarrow> (failed, st1)
                 | Response code answer \<Rightarrow>
                     if \<not> resp_ok code
                     then (Returned \<lparr>status = 401, body = ErrorBody (js ''Invalid or expired Google token'')\<rparr>,
                           st1)
                     else
                       (case answer of
                          None \<Rightarrow> (failed, st1)
                        | Some p \<Rightarrow>
                            (case profile_email rt p of
                               Thrown e \<Rightarrow> (failed, st1)
                             | Returned em \<Rightarrow>
                                 if em = []
                                 then (Returned \<lparr>status = 401,
                                                 body = ErrorBody (js ''Could not retrieve email from Google'')\<rparr>,
                                       st1)
                                 else
                                   (let st2 = st1\<lparr>store := tokenStore_set now em tok (store st1)\<rparr>;
                                        st3 = (if em \<in> set (bootstrapAdmins rt ev)
                                               then setAdminEmail em st2 else st2)
                                    in case (case lookupUser rt ev w now em st3 of
                                               (Returned f, s) \<Rightarrow> (f, s)
                                             | (Thrown e, s) \<Rightarrow>
                                                 (if em \<in> set (bootstrapAdmins rt ev)
                                                  then Some (BootstrapAdmin em) else None, s)) of
                                         (None, st4) \<Rightarrow>
                                           (Returned \<lparr>status = 403, body = ErrorBody msg_not_authorised\<rparr>,
                                            st4\<lparr>store := tokenStore_delete em (store st4)\<rparr>)
                                       | (Some found, st4) \<Rightarrow>
                                           (let st5 = (if found_role found = js ''admin''
                                                       then setAdminEmail em st4 else st4);
                                                payload = jwtPayload p em (found_role found);
                                                expiresIn = or_default (JWT_EXPIRES_IN ev) (js ''8h'')
                                            in case jwt_sign rt payload (JWT_SECRET ev) expiresIn of
                                                 Thrown e \<Rightarrow> (failed, st5)
                                               | Returned t \<Rightarrow>
                                                   (Returned \<lparr>status = 200,
                                                              body = SessionBody t payload expiresIn\<rparr>,
                                                    st5))))))))"


section \<open>The contract of the authenticated cipher\<close>

text \<open>
  What the code relies on from AES-256-GCM: under one key and a 12-byte nonce, the tag
  is 16 bytes long and opening what was sealed gives the plaintext back.
\<close>

definition aead_correct :: "runtime \<Rightarrow> bool" where
  "aead_correct rt =
     (\<forall>key iv pt. length iv = IV_BYTES \<longrightarrow>
        (case gcm_seal rt key iv pt of
           (ct, tag) \<Rightarrow> length tag = TAG_BYTES \<and> gcm_open rt key iv tag ct = Returned pt))"




section \<open>A concrete runtime, environment and world\<close>

text \<open>
  Stand-ins for the library functions, small enough to evaluate: lower-casing of the
  ASCII letters, a byte-wise shift as cipher with a checksum as tag, and a token format
  that names its subject. They instantiate the statements below at concrete inputs.
\<close>

definition ascii_lower :: "jsstring \<Rightarrow> jsstring" where
  "ascii_lower s = map (\<lambda>c. if 0x41 \<le> c \<and> c \<le> 0x5A then c + 0x20 else c) s"

definition demo_tag :: "byte list \<Rightarrow> byte list \<Rightarrow> byte list" where
  "demo_tag key ct = replicate 16 (foldr (+) (key @ ct) 0)"

definition demo_seal :: "byte list \<Rightarrow> byte list \<Rightarrow> byte list \<Rightarrow> byte list \<times> byte list" where
  "demo_seal key iv pt = (map (\<lambda>b. b + 1) pt, demo_tag key (map (\<lambda>b. b + 1) pt))"

definition demo_open ::
  "byte list \<Rightarrow> byte list \<Rightarrow> byte list \<Rightarrow> byte list \<Rightarrow> (byte list) outcome" where
  "demo_open key iv tag ct =
     (if iv \<noteq> [] \<and> tag = demo_tag key ct then Returned (map (\<lambda>b. b - 1) ct)
      else Thrown CryptoError)"

definition demo_profile :: "jsstring \<Rightarrow> profile" where
  "demo_profile em =
     \<lparr>p_email = JStr em, p_name = JUndefined, p_given_name = JUndefined, p_picture = JUndefined\<rparr>"

definition demo_runtime :: runtime where
  "demo_runtime =
     \<lparr>toLowerCase = ascii_lower,
      sha256 = (\<lambda>bs. take 32 (bs @ replicate 32 0)),
      gcm_seal = demo_seal,
      gcm_open = demo_open,
      jwt_sign = (\<lambda>p secret expiresIn.
                    case secret of
                      None \<Rightarrow> Thrown JsonWebTokenError
                    | Some s \<Rightarrow> Returned (js ''jwt:'' @ userId p)),
      jwt_verify = (\<lambda>t secret.
                      if t = js ''jwt:alice@x.com''
                      then Returned (jwtPayload (demo_profile (js ''alice@x.com''))
                                       (js ''alice@x.com'') (js ''user''))
                      else Thrown JsonWebTokenError)\<rparr>"

definition demo_env :: env where
  "demo_env =
     \<lparr>JWT_SECRET = Some (js ''0123456789abcdef0123456789abcdef''),
      JWT_EXPIRES_IN = None,
      ADMIN_EMAILS = Some (js ''boss@x.com'')\<rparr>"

definition demo_world :: world where
  "demo_world =
     \<lparr>userinfo = (\<lambda>tok.
         if tok = JStr (js ''validTokenForBoss'')
         then Response 200 (Some (demo_profile (js ''Boss@X.com '')))
         else if tok = JStr (js ''validTokenForRandomUser'')
         then Response 200 (Some (demo_profile (js ''random@y.com'')))
         else if tok = JStr (js ''validTokenForAlice'')
         then Response 200 (Some (demo_profile (js ''alice@x.com'')))
         else if tok = JStr (js ''revokedTokenOfBoss'')
         then Response 401 (Some (demo_profile (js ''Boss@X.com '')))
         else Response 401 None),
      sheets = (\<lambda>call tok.
         Response 200
           (Some (case call of
                    GetMeta \<Rightarrow> MetaJson [USERS_TAB]
                  | GetValues \<Rightarrow>
                      ValuesJson
                        (Some [[js ''email'', js ''role'', js ''addedBy'', js ''addedAt''],
                               [js ''alice@x.com'', js ''user'', js ''boss@x.com'', js ''1/1'']])
                  | _ \<Rightarrow> AckJson)))\<rparr>"

text \<open>The process after a cold start, and one in which the administrator has logged in.\<close>

definition cold_start :: server where
  "cold_start =
     \<lparr>store = Map.empty, adminEmail = None, cache = None, cacheTime = 0, calls = []\<rparr>"

definition warm_admin :: server where
  "warm_admin =
     \<lparr>store = [js ''boss@x.com'' \<mapsto>
                 \<lparr>googleToken = JStr (js ''validTokenForBoss''), expiresAt = 3300000\<rparr>],
      adminEmail = Some (js ''boss@x.com''),
      cache = None, cacheTime = 0, calls = []\<rparr>"

text \<open>
  The same process with a roster read half a second ago that lists \<open>random@y.com\<close>, a
  row the sheet of \<open>demo_world\<close> does not hold.
\<close>

definition warm_cached :: server where
  "warm_cached =
     warm_admin
       \<lparr>cache := Some [js ''random@y.com'' \<mapsto>
                         \<lparr>rowIndex = 3, row_email = js ''random@y.com'', row_role = js ''user'',
                          addedBy = js ''boss@x.com'', addedAt = js ''1/1''\<rparr>],
        cacheTime := 500\<rparr>"

definition demo_request :: "jsstring option \<Rightarrow> jsval \<Rightarrow> request" where
  "demo_request hdr tok =
     \<lparr>authorization = hdr, req_body = Some \<lparr>googleAccessToken = tok\<rparr>, user = None\<rparr>"


section \<open>Arithmetic of the encodings\<close>

lemma mask32: "q < 32 \<Longrightarrow> (192 + q) mod 32 = (q::nat)"
  using mod_mult_self1[of q 6 32] by (simp add: add.commute)

lemma mask16: "q < 16 \<Longrightarrow> (224 + q) mod 16 = (q::nat)"
  using mod_mult_self1[of q 14 16] by (simp add: add.commute)

lemma mask8: "q < 8 \<Longrightarrow> (240 + q) mod 8 = (q::nat)"
  using mod_mult_self1[of q 30 8] by (simp add: add.commute)

lemma mask64: "(128 + x mod 64) mod 64 = (x::nat) mod 64"
  using mod_mult_self1[of "x mod 64" 2 64] by (simp add: add.commute)

lemma div4096: "(c::nat) div 4096 = c div 64 div 64"
  by (simp add: div_mult2_eq[symmetric])

lemma div262144: "(c::nat) div 262144 = c div 64 div 64 div 64"
  by (simp add: div_mult2_eq[symmetric])

lemma join2: "(c div 64) * 64 + c mod 64 = (c::nat)"
  by simp

lemma join3: "((c div 4096) * 64 + (c div 64) mod 64) * 64 + c mod 64 = (c::nat)"
  by (simp add: div4096)

lemma join4:
  "(((c div 262144) * 64 + (c div 4096) mod 64) * 64 + (c div 64) mod 64) * 64 + c mod 64 = (c::nat)"
  by (simp add: div4096 div262144 del: div_mult2_eq)

lemma lead2: "128 \<le> c \<Longrightarrow> c < 2048 \<Longrightarrow> 2 \<le> c div 64 \<and> c div 64 < (32::nat)"
  by (simp add: less_mult_imp_div_less le_div_geq div_greater_zero_iff)

lemma lead3: "c < 65536 \<Longrightarrow> c div 4096 < (16::nat)"
  by (simp add: less_mult_imp_div_less)

lemma lead4: "c < 1114112 \<Longrightarrow> c div 262144 \<le> (4::nat)"
  by (simp add: less_mult_imp_div_less)

lemma second_E0: "2048 \<le> c \<Longrightarrow> c < 4096 \<Longrightarrow> 32 \<le> (c div 64) mod (64::nat)"
proof -
  assume a: "2048 \<le> c" "c < 4096"
  have "c div 64 < 64" using a by (simp add: less_mult_imp_div_less)
  moreover have "32 \<le> c div 64" using a by (simp add: less_eq_div_iff_mult_less_eq)
  ultimately show ?thesis by simp
qed

lemma second_ED: "c div 4096 = 13 \<Longrightarrow> c < 55296 \<Longrightarrow> (c div 64) mod 64 < (32::nat)"
proof -
  assume a: "c div 4096 = 13" "c < 55296"
  have d: "c div 64 div 64 = 13" using a by (simp add: div_mult2_eq[symmetric])
  have "c div 64 = 13 * 64 + (c div 64) mod 64"
    using d div_mult_mod_eq[of "c div 64" 64] by simp
  moreover have "c div 64 < 864" using a by (simp add: less_mult_imp_div_less)
  ultimately show ?thesis by linarith
qed

lemma second_F0: "65536 \<le> c \<Longrightarrow> c < 262144 \<Longrightarrow> 16 \<le> (c div 4096) mod (64::nat)"
proof -
  assume a: "65536 \<le> c" "c < 262144"
  have "c div 4096 < 64" using a by (simp add: less_mult_imp_div_less)
  moreover have "16 \<le> c div 4096" using a by (simp add: less_eq_div_iff_mult_less_eq)
  ultimately show ?thesis by simp
qed

lemma second_F4: "c div 262144 = 4 \<Longrightarrow> c < 1114112 \<Longrightarrow> (c div 4096) mod 64 < (16::nat)"
proof -
  assume a: "c div 262144 = 4" "c < 1114112"
  have d: "c div 4096 div 64 = 4" using a by (simp add: div_mult2_eq[symmetric])
  have "c div 4096 = 4 * 64 + (c div 4096) mod 64"
    using d div_mult_mod_eq[of "c div 4096" 64] by simp
  moreover have "c div 4096 < 272" using a by (simp add: less_mult_imp_div_less)
  ultimately show ?thesis by linarith
qed

lemma sextet_join:
  fixes a b c :: nat
  assumes "a < 256" "b < 256" "c < 256"
  shows "(a div 4) * 4 + ((a mod 4) * 16 + b div 16) div 16 = a"
    and "(((a mod 4) * 16 + b div 16) mod 16) * 16 + ((b mod 16) * 4 + c div 64) div 4 = b"
    and "(((b mod 16) * 4 + c div 64) mod 4) * 64 + c mod 64 = c"
    and "(((a mod 4) * 16 + b div 16) mod 16) * 16 + ((b mod 16) * 4) div 4 = b"
    and "(a div 4) * 4 + ((a mod 4) * 16) div 16 = a"
  using assms by (simp_all add: div_mult2_eq[symmetric])

lemma sextet_bound:
  fixes a b c :: nat
  assumes "a < 256" "b < 256" "c < 256"
  shows "a div 4 < 64" "(a mod 4) * 16 + b div 16 < 64" "(b mod 16) * 4 + c div 64 < 64"
    "c mod 64 < 64" "(b mod 16) * 4 < 64" "(a mod 4) * 16 < 64"
  using assms by (simp_all add: less_mult_imp_div_less)

section \<open>UTF-8: decoding inverts encoding on well-formed strings\<close>

lemma step2_gen:
  "0xC2 \<le> b \<Longrightarrow> b \<le> 0xDF \<Longrightarrow> continuation c1 \<Longrightarrow>
   utf8_step b (c1 # rest) = ((b mod 32) * 64 + c1 mod 64, 1)"
  by (simp add: utf8_step_def)

lemma step3_gen:
  "0xE0 \<le> b \<Longrightarrow> b \<le> 0xEF \<Longrightarrow>
   (if b = 0xE0 then 0xA0 else 0x80) \<le> c1 \<Longrightarrow> c1 \<le> (if b = 0xED then 0x9F else 0xBF) \<Longrightarrow>
   continuation c2 \<Longrightarrow>
   utf8_step b (c1 # c2 # rest) = (((b mod 16) * 64 + c1 mod 64) * 64 + c2 mod 64, 2)"
  by (simp add: utf8_step_def)

lemma step4_gen:
  "0xF0 \<le> b \<Longrightarrow> b \<le> 0xF4 \<Longrightarrow>
   (if b = 0xF0 then 0x90 else 0x80) \<le> c1 \<Longrightarrow> c1 \<le> (if b = 0xF4 then 0x8F else 0xBF) \<Longrightarrow>
   continuation c2 \<Longrightarrow> continuation c3 \<Longrightarrow>
   utf8_step b (c1 # c2 # c3 # rest) =
     ((((b mod 8) * 64 + c1 mod 64) * 64 + c2 mod 64) * 64 + c3 mod 64, 3)"
  by (simp add: utf8_step_def)

lemma continuation_low6: "continuation (0x80 + x mod 64)"
proof -
  have "x mod 64 < 64" by simp
  then show ?thesis unfolding continuation_def by linarith
qed

lemma step2:
  assumes "0x80 \<le> c" "c < 0x800"
  shows "utf8_step (0xC0 + c div 64) ((0x80 + c mod 64) # rest) = (c, 1)"
proof -
  from lead2 [of c] assms have a: "2 \<le> c div 64" "c div 64 < 32" by simp_all
  have "utf8_step (0xC0 + c div 64) ((0x80 + c mod 64) # rest)
      = (((0xC0 + c div 64) mod 32) * 64 + (0x80 + c mod 64) mod 64, 1)"
    using a by (intro step2_gen continuation_low6) simp_all
  also have "(0xC0 + c div 64) mod 32 = c div 64" using mask32[OF a(2)] by simp
  also have "(0x80 + c mod 64) mod 64 = c mod 64" using mask64[of c] by simp
  also have "(c div 64) * 64 + c mod 64 = c" by (rule join2)
  finally show ?thesis .
qed

lemma step3:
  assumes "0x800 \<le> c" "c < 0x10000" "\<not> (0xD800 \<le> c \<and> c \<le> 0xDFFF)"
  shows "utf8_step (0xE0 + c div 4096) ((0x80 + (c div 64) mod 64) # (0x80 + c mod 64) # rest)
           = (c, 2)"
proof -
  from lead3 [of c] assms have a: "c div 4096 < 16" by simp
  have lo: "c div 4096 = 0 \<Longrightarrow> 32 \<le> (c div 64) mod 64"
    using second_E0[of c] assms(1) by (simp add: div_eq_0_iff)
  have hi: "(c div 64) mod 64 < 32" if d: "c div 4096 = 13"
  proof -
    have "c div 4096 < 14" using d by simp
    then have "c < 14 * 4096" by (simp only: div_less_iff_less_mult)
    then have "c < 55296" using assms(3) by simp
    then show ?thesis using second_ED[OF d] by simp
  qed
  have "(c div 64) mod 64 < 64" by simp
  then have rng:
    "(if 0xE0 + c div 4096 = (0xE0::nat) then 0xA0 else 0x80) \<le> 0x80 + (c div 64) mod 64"
    "0x80 + (c div 64) mod 64 \<le> (if 0xE0 + c div 4096 = (0xED::nat) then 0x9F else 0xBF)"
    using lo hi by (auto split: if_splits)
  have "utf8_step (0xE0 + c div 4096) ((0x80 + (c div 64) mod 64) # (0x80 + c mod 64) # rest)
      = ((((0xE0 + c div 4096) mod 16) * 64 + (0x80 + (c div 64) mod 64) mod 64) * 64
          + (0x80 + c mod 64) mod 64, 2)"
    using a by (intro step3_gen continuation_low6 rng) simp_all
  also have "(0xE0 + c div 4096) mod 16 = c div 4096" using mask16[OF a] by simp
  also have "(0x80 + (c div 64) mod 64) mod 64 = (c div 64) mod 64"
    using mask64[of "c div 64"] by simp
  also have "(0x80 + c mod 64) mod 64 = c mod 64" using mask64[of c] by simp
  also have "((c div 4096) * 64 + (c div 64) mod 64) * 64 + c mod 64 = c" by (rule join3)
  finally show ?thesis .
qed

lemma step4:
  assumes "0x10000 \<le> c" "c < 0x110000"
  shows "utf8_step (0xF0 + c div 262144)
           ((0x80 + (c div 4096) mod 64) # (0x80 + (c div 64) mod 64) # (0x80 + c mod 64) # rest)
           = (c, 3)"
proof -
  from lead4 [of c] assms have a: "c div 262144 \<le> 4" by simp
  then have a': "c div 262144 < 8" by simp
  have lo: "c div 262144 = 0 \<Longrightarrow> 16 \<le> (c div 4096) mod 64"
    using second_F0[of c] assms(1) by (simp add: div_eq_0_iff)
  have hi: "c div 262144 = 4 \<Longrightarrow> (c div 4096) mod 64 < 16"
    using second_F4[of c] assms(2) by simp
  have "(c div 4096) mod 64 < 64" by simp
  then have rng:
    "(if 0xF0 + c div 262144 = (0xF0::nat) then 0x90 else 0x80) \<le> 0x80 + (c div 4096) mod 64"
    "0x80 + (c div 4096) mod 64 \<le> (if 0xF0 + c div 262144 = (0xF4::nat) then 0x8F else 0xBF)"
    using lo hi by (auto split: if_splits)
  have "utf8_step (0xF0 + c div 262144)
           ((0x80 + (c div 4096) mod 64) # (0x80 + (c div 64) mod 64) # (0x80 + c mod 64) # rest)
      = (((((0xF0 + c div 262144) mod 8) * 64 + (0x80 + (c div 4096) mod 64) mod 64) * 64
          + (0x80 + (c div 64) mod 64) mod 64) * 64 + (0x80 + c mod 64) mod 64, 3)"
    using a by (intro step4_gen continuation_low6 rng) simp_all
  also have "(0xF0 + c div 262144) mod 8 = c div 262144" using mask8[OF a'] by simp
  also have "(0x80 + (c div 4096) mod 64) mod 64 = (c div 4096) mod 64"
    using mask64[of "c div 4096"] by simp
  also have "(0x80 + (c div 64) mod 64) mod 64 = (c div 64) mod 64"
    using mask64[of "c div 64"] by simp
  also have "(0x80 + c mod 64) mod 64 = c mod 64" using mask64[of c] by simp
  also have "(((c div 262144) * 64 + (c div 4096) mod 64) * 64 + (c div 64) mod 64) * 64
               + c mod 64 = c"
    by (rule join4)
  finally show ?thesis .
qed

lemma utf8_cps_cp: "scalar c \<Longrightarrow> utf8_cps (utf8_cp c @ rest) = c # utf8_cps rest"
proof -
  assume s: "scalar c"
  consider "c < 0x80" | "0x80 \<le> c" "c < 0x800" | "0x800 \<le> c" "c < 0x10000" | "0x10000 \<le> c"
    by linarith
  then show ?thesis
  proof cases
    case 1
    then show ?thesis by (simp add: utf8_cp_def utf8_step_def)
  next
    case 2
    then show ?thesis using step2[OF 2] by (simp add: utf8_cp_def)
  next
    case 3
    then show ?thesis using step3[OF 3] s by (simp add: utf8_cp_def scalar_def)
  next
    case 4
    then show ?thesis using step4[OF 4] s by (simp add: utf8_cp_def scalar_def)
  qed
qed

lemma pair_scalar:
  assumes "high_surrogate u" "low_surrogate v"
  shows "scalar (0x10000 + (u - 0xD800) * 1024 + (v - 0xDC00))"
    and "utf16_cp (0x10000 + (u - 0xD800) * 1024 + (v - 0xDC00)) = [u, v]"
proof -
  obtain h where h: "u = 0xD800 + h" "h < 1024"
    using assms(1) unfolding high_surrogate_def by (intro that[of "u - 0xD800"]) auto
  obtain l where l: "v = 0xDC00 + l" "l < 1024"
    using assms(2) unfolding low_surrogate_def by (intro that[of "v - 0xDC00"]) auto
  have "h * 1024 \<le> 1023 * 1024" using h(2) by simp
  then show "scalar (0x10000 + (u - 0xD800) * 1024 + (v - 0xDC00))"
    using h l by (simp add: scalar_def)
  show "utf16_cp (0x10000 + (u - 0xD800) * 1024 + (v - 0xDC00)) = [u, v]"
    using h l by (simp add: utf16_cp_def)
qed

lemma unit_scalar:
  assumes "u < 0x10000" "\<not> high_surrogate u" "\<not> low_surrogate u"
  shows "scalar u" "utf16_cp u = [u]"
  using assms by (auto simp: scalar_def utf16_cp_def high_surrogate_def low_surrogate_def)

lemma utf16_roundtrip_nat:
  "\<forall>u\<in>set us. u < 0x10000 \<Longrightarrow> wf_units us \<Longrightarrow>
   concat (map utf16_cp (utf8_cps (utf8_units us))) = us"
proof (induction us rule: utf8_units.induct)
  case 1
  then show ?case by simp
next
  case (2 u)
  then have "scalar u" "utf16_cp u = [u]" by (simp_all add: unit_scalar)
  then show ?case using 2 utf8_cps_cp[of u "[]"] by simp
next
  case (3 u v rest)
  show ?case
  proof (cases "high_surrogate u")
    case True
    then have lv: "low_surrogate v" and wf: "wf_units rest" using "3.prems"(2) by simp_all
    from pair_scalar[OF True lv] utf8_cps_cp "3.IH"(1)[OF True lv] "3.prems"(1) wf True lv
    show ?thesis by simp
  next
    case False
    then have nl: "\<not> low_surrogate u" and wf: "wf_units (v # rest)"
      using "3.prems"(2) by simp_all
    have "u < 0x10000" using "3.prems"(1) by simp
    from unit_scalar[OF this False nl] utf8_cps_cp "3.IH"(4)[OF False nl] "3.prems"(1) wf False nl
    show ?thesis by simp
  qed
qed

lemma utf8_cp_bytes: "c < 0x110000 \<Longrightarrow> \<forall>b\<in>set (utf8_cp c). b < 256"
proof -
  assume c: "c < 0x110000"
  have m: "\<And>x::nat. 0x80 + x mod 64 < 256"
  proof -
    fix x :: nat
    have "x mod 64 < 64" by simp
    then show "0x80 + x mod 64 < 256" by linarith
  qed
  have "c < 0x800 \<Longrightarrow> c div 64 < 32" by (simp add: less_mult_imp_div_less)
  moreover have "c < 0x10000 \<Longrightarrow> c div 4096 < 16" by (simp add: less_mult_imp_div_less)
  moreover have "c div 262144 < 5" using c by (simp add: less_mult_imp_div_less)
  ultimately show ?thesis using m by (auto simp: utf8_cp_def)
qed

lemma utf8_units_bytes: "\<forall>u\<in>set us. u < 0x10000 \<Longrightarrow> \<forall>b\<in>set (utf8_units us). b < 256"
proof (induction us rule: utf8_units.induct)
  case 1
  then show ?case by simp
next
  case (2 u)
  then have "u < 0x110000" by simp
  from utf8_cp_bytes[OF this] show ?case by simp
next
  case (3 u v rest)
  have u: "u < 0x110000" using "3.prems" by simp
  show ?case
  proof (cases "high_surrogate u \<and> low_surrogate v")
    case True
    then have "scalar (0x10000 + (u - 0xD800) * 1024 + (v - 0xDC00))"
      using pair_scalar(1) by simp
    then have "0x10000 + (u - 0xD800) * 1024 + (v - 0xDC00) < 0x110000"
      by (simp add: scalar_def)
    from utf8_cp_bytes[OF this] "3.IH"(1) "3.prems" True show ?thesis by auto
  next
    case False
    with "3.IH"(2,3,4) "3.prems" utf8_cp_bytes[OF u] show ?thesis by auto
  qed
qed

lemma unat_byte_list: "\<forall>x\<in>set xs. x < 256 \<Longrightarrow> map unat (map of_nat xs :: byte list) = xs"
  by (induction xs) (simp_all add: unat_of_nat)

lemma unit_bound: "\<forall>u\<in>set (map unat (s :: jsstring)). u < 0x10000"
proof -
  have "unat u < 0x10000" for u :: "16 word"
    using unsigned_less[of u, where 'a = nat] by simp
  then show ?thesis by simp
qed

lemma byte_bound: "\<forall>u\<in>set (map unat (s :: byte list)). u < 256"
proof -
  have "unat u < 256" for u :: "8 word"
    using unsigned_less[of u, where 'a = nat] by simp
  then show ?thesis by simp
qed

lemma utf8_roundtrip: "well_formed s \<Longrightarrow> utf8_decode (utf8_encode s) = s"
proof -
  assume wf: "well_formed s"
  have "map unat (utf8_encode s) = utf8_units (map unat s)"
    unfolding utf8_encode_def by (rule unat_byte_list) (rule utf8_units_bytes[OF unit_bound])
  then have "utf8_decode (utf8_encode s) = map of_nat (map unat s)"
    unfolding utf8_decode_def
    using utf16_roundtrip_nat[OF unit_bound, of s] wf by (simp add: well_formed_def)
  then show ?thesis by (simp add: comp_def)
qed

section \<open>base64url: decoding inverts encoding\<close>

lemma b64_bytes_groups: "\<forall>x\<in>set bs. x < 256 \<Longrightarrow> b64_bytes (b64_groups bs) = bs"
proof (induction bs rule: b64_groups.induct)
  case (1 a b c rest)
  then have "a < 256" "b < 256" "c < 256" by simp_all
  from sextet_join(1-3)[OF this] 1 show ?case by (simp del: One_nat_def)
next
  case (2 a b)
  then have "a < 256" "b < 256" by simp_all
  from sextet_join(1,4)[OF this this(1)] show ?case by simp
next
  case (3 a)
  then have "a < 256" by simp_all
  from sextet_join(5)[OF this this this] show ?case by simp
next
  case 4
  then show ?case by simp
qed

lemma b64_groups_bound: "\<forall>x\<in>set bs. x < 256 \<Longrightarrow> \<forall>s\<in>set (b64_groups bs). s < 64"
proof (induction bs rule: b64_groups.induct)
  case (1 a b c rest)
  then have "a < 256" "b < 256" "c < 256" by simp_all
  from sextet_bound(1-4)[OF this] 1 show ?case by simp
next
  case (2 a b)
  then have "a < 256" "b < 256" by simp_all
  from sextet_bound(1,2,5)[OF this this(1)] show ?case by simp
next
  case (3 a)
  then have "a < 256" by simp_all
  from sextet_bound(1,6)[OF this this this] show ?case by simp
next
  case 4
  then show ?case by simp
qed

lemma unat_b64url_char:
  "n < 64 \<Longrightarrow> unat (b64url_char n) =
     (if n < 26 then 65 + n else if n < 52 then 97 + (n - 26)
      else if n < 62 then 48 + (n - 52) else if n = 62 then 45 else 95)"
  by (simp add: b64url_char_def unat_of_nat)

lemma low_byte_b64url_char: "n < 64 \<Longrightarrow> low_byte (b64url_char n) = unat (b64url_char n)"
  by (simp add: low_byte_def unat_b64url_char)

lemma unbase64_char: "n < 64 \<Longrightarrow> unbase64 (b64url_char n) = Some n"
  by (simp add: unbase64_def low_byte_b64url_char unat_b64url_char Let_def) linarith

lemma b64url_char_not_pad: "n < 64 \<Longrightarrow> low_byte (b64url_char n) \<noteq> 61"
  by (simp add: low_byte_b64url_char unat_b64url_char) linarith

lemma b64url_char_safe: "n < 64 \<Longrightarrow> url_safe (b64url_char n)"
  by (simp add: url_safe_def unat_b64url_char Let_def) linarith

lemma b64_sextets_chars: "\<forall>n\<in>set ns. n < 64 \<Longrightarrow> b64_sextets (map b64url_char ns) = ns"
  by (induction ns)
     (simp_all add: b64_sextets_def List.map_filter_simps unbase64_char b64url_char_not_pad)

lemma b64url_roundtrip: "b64url_decode (b64url_encode bs) = bs"
proof -
  have "b64_sextets (b64url_encode bs) = b64_groups (map unat bs)"
    unfolding b64url_encode_def by (rule b64_sextets_chars) (rule b64_groups_bound[OF byte_bound])
  then show ?thesis
    by (simp add: b64url_decode_def b64_bytes_groups[OF byte_bound] comp_def)
qed

lemma b64url_encode_inj: "b64url_encode xs = b64url_encode ys \<Longrightarrow> xs = ys"
proof -
  assume "b64url_encode xs = b64url_encode ys"
  then have "b64url_decode (b64url_encode xs) = b64url_decode (b64url_encode ys)"
    by (rule arg_cong)
  then show ?thesis by (simp only: b64url_roundtrip)
qed

lemma b64url_encode_safe: "\<forall>c\<in>set (b64url_encode bs). url_safe c"
proof
  fix c
  assume "c \<in> set (b64url_encode bs)"
  then obtain n where n: "n \<in> set (b64_groups (map unat bs))" and c: "c = b64url_char n"
    unfolding b64url_encode_def by auto
  from n b64_groups_bound[OF byte_bound, of bs] have "n < 64" by blast
  then show "url_safe c" unfolding c by (rule b64url_char_safe)
qed

section \<open>The token vault\<close>

lemma js_Nil: "js [] = []"
  by (simp add: js_def)

lemma js_Cons: "js (c # cs) = of_nat (of_char c) # js cs"
  by (simp add: js_def)

lemma splitBlob_parts:
  "length iv = IV_BYTES \<Longrightarrow> length tag = TAG_BYTES \<Longrightarrow> splitBlob (iv @ tag @ ct) = (iv, tag, ct)"
  by (simp add: splitBlob_def subarray_def)

lemma length_randomBytes: "length (randomBytes n rnd) = n"
  by (simp add: randomBytes_def)

lemma demo_aead_correct: "aead_correct demo_runtime"
  by (simp add: aead_correct_def demo_runtime_def demo_seal_def demo_open_def IV_BYTES_def
      TAG_BYTES_def demo_tag_def comp_def) auto

lemma encryptToken_blob:
  "gcm_seal rt (getKey rt ev) (randomBytes IV_BYTES rnd) (utf8_encode T) = (enc, tag) \<Longrightarrow>
   encryptToken rt ev rnd T = b64url_encode (randomBytes IV_BYTES rnd @ tag @ enc)"
  by (simp add: encryptToken_def)

lemma decryptToken_cases:
  "decryptToken rt ev blob =
     (case splitBlob (b64url_decode blob) of
        (iv, tag, ct) \<Rightarrow>
          (case gcm_open rt (getKey rt ev) iv tag ct of
             Thrown e \<Rightarrow> Returned JNull
           | Returned pt \<Rightarrow> Returned (JStr (utf8_decode pt))))"
  by (simp add: decryptToken_def decryptToken_try_def split: prod.splits outcome.splits)

text \<open>
  Under a correct cipher, decrypting an encrypted token gives the token after one pass
  through UTF-8: the bytes the cipher saw, decoded.
\<close>

lemma encrypt_decrypt_value:
  assumes "aead_correct rt"
  shows "decryptToken rt ev (encryptToken rt ev rnd T)
           = Returned (JStr (utf8_decode (utf8_encode T)))"
proof -
  define iv where "iv = randomBytes IV_BYTES rnd"
  obtain enc tag where seal: "gcm_seal rt (getKey rt ev) iv (utf8_encode T) = (enc, tag)"
    by (cases "gcm_seal rt (getKey rt ev) iv (utf8_encode T)")
  have iv: "length iv = IV_BYTES" by (simp add: iv_def length_randomBytes)
  from assms(1) iv seal have tag: "length tag = TAG_BYTES"
    and opn: "gcm_open rt (getKey rt ev) iv tag enc = Returned (utf8_encode T)"
    unfolding aead_correct_def by (auto split: prod.splits)
  have blob: "encryptToken rt ev rnd T = b64url_encode (iv @ tag @ enc)"
    using seal unfolding iv_def by (rule encryptToken_blob)
  show ?thesis
    unfolding blob decryptToken_cases b64url_roundtrip splitBlob_parts[OF iv tag]
    using opn by simp
qed

text \<open>
  C1, as the code has it. For every well-formed token string \<open>T\<close> (no unpaired
  surrogate) and every correct cipher, \<open>decryptToken\<close> applied to the blob that
  \<open>encryptToken\<close> made of \<open>T\<close> under the same server secret returns exactly \<open>T\<close>.
\<close>

theorem roundtrip_well_formed:
  assumes "aead_correct rt" and "well_formed T"
  shows "decryptToken rt ev (encryptToken rt ev rnd T) = Returned (JStr T)"
  using encrypt_decrypt_value[OF assms(1)] utf8_roundtrip[OF assms(2)] by simp

lemma wf_demo: "well_formed (js ''ya29.a0'')"
  by (simp add: well_formed_def js_Nil js_Cons high_surrogate_def low_surrogate_def)

theorem roundtrip_well_formed_witness:
  "aead_correct demo_runtime \<and> well_formed (js ''ya29.a0'') \<and>
   decryptToken demo_runtime demo_env
     (encryptToken demo_runtime demo_env (\<lambda>i. 7) (js ''ya29.a0'')) = Returned (JStr (js ''ya29.a0''))"
  using roundtrip_well_formed[OF demo_aead_correct wf_demo] demo_aead_correct wf_demo by blast

text \<open>
  C1 as stated fails on a string with an unpaired surrogate: \<open>'utf8'\<close> encodes the code
  unit D800 as EF BF BD, and the decrypted token is the replacement character U+FFFD.
\<close>

lemma lone_surrogate_lossy: "utf8_decode (utf8_encode [0xD800]) = [0xFFFD]"
  by (simp add: utf8_encode_def utf8_decode_def high_surrogate_def utf8_step_def continuation_def
      utf16_cp_def)

theorem roundtrip_lone_surrogate:
  "aead_correct demo_runtime \<and>
   decryptToken demo_runtime demo_env (encryptToken demo_runtime demo_env (\<lambda>i. 7) [0xD800])
     = Returned (JStr [0xFFFD]) \<and>
   Returned (JStr [0xFFFD]) \<noteq> Returned (JStr [0xD800 :: 16 word])"
  using demo_aead_correct
    encrypt_decrypt_value[OF demo_aead_correct, of demo_env "\<lambda>i. 7" "[0xD800]"]
  by (simp add: lone_surrogate_lossy)











lemma b64url_decode_low_byte:
  "b64url_decode [0x141, 0x151] = [0x01]" "b64url_decode (js ''AQ'') = [0x01]"
  "b64url_decode [0x41, 0x51, 0x13D, 0x41, 0x51] = [0x01]"
  by (simp_all add: b64url_decode_def b64_sextets_def List.map_filter_simps unbase64_def
      low_byte_def js_Nil js_Cons)




lemma b64_groups_append3:
  "length xs mod 3 = 0 \<Longrightarrow> b64_groups (xs @ ys) = b64_groups xs @ b64_groups ys"
  by (induction xs rule: b64_groups.induct) simp_all

lemma length_b64_groups3:
  "length xs mod 3 = 0 \<Longrightarrow> length (b64_groups xs) = 4 * (length xs div 3)"
proof (induction xs rule: b64_groups.induct)
  case (1 a b c rest)
  have "(3 + length rest) div 3 = 1 + length rest div 3" by simp
  with 1 show ?case by simp
qed simp_all

lemma b64url_encode_prefix:
  "length iv = IV_BYTES \<Longrightarrow> take 16 (b64url_encode (iv @ rest)) = b64url_encode iv"
  by (simp add: b64url_encode_def b64_groups_append3 length_b64_groups3 IV_BYTES_def)

text \<open>
  C5. Two calls of \<open>encryptToken\<close> on the same plaintext whose random nonces differ give
  different blobs: the first 16 characters of a blob are the base64url text of its
  12-byte nonce.
\<close>

theorem encrypt_distinct_nonces:
  assumes "randomBytes IV_BYTES rnd1 \<noteq> randomBytes IV_BYTES rnd2"
  shows "encryptToken rt ev rnd1 T \<noteq> encryptToken rt ev rnd2 T \<and>
         take 16 (encryptToken rt ev rnd1 T) = b64url_encode (randomBytes IV_BYTES rnd1) \<and>
         take 16 (encryptToken rt ev rnd2 T) = b64url_encode (randomBytes IV_BYTES rnd2)"
proof -
  obtain e1 t1 where s1:
    "gcm_seal rt (getKey rt ev) (randomBytes IV_BYTES rnd1) (utf8_encode T) = (e1, t1)"
    by (cases "gcm_seal rt (getKey rt ev) (randomBytes IV_BYTES rnd1) (utf8_encode T)")
  obtain e2 t2 where s2:
    "gcm_seal rt (getKey rt ev) (randomBytes IV_BYTES rnd2) (utf8_encode T) = (e2, t2)"
    by (cases "gcm_seal rt (getKey rt ev) (randomBytes IV_BYTES rnd2) (utf8_encode T)")
  note b1 = encryptToken_blob[OF s1] and b2 = encryptToken_blob[OF s2]
  have "encryptToken rt ev rnd1 T \<noteq> encryptToken rt ev rnd2 T"
  proof
    assume "encryptToken rt ev rnd1 T = encryptToken rt ev rnd2 T"
    then have "randomBytes IV_BYTES rnd1 @ t1 @ e1 = randomBytes IV_BYTES rnd2 @ t2 @ e2"
      unfolding b1 b2 by (rule b64url_encode_inj)
    then have "randomBytes IV_BYTES rnd1 = randomBytes IV_BYTES rnd2"
      by (simp add: length_randomBytes)
    with assms show False by simp
  qed
  then show ?thesis
    unfolding b1 b2 by (simp add: b64url_encode_prefix length_randomBytes)
qed

theorem encrypt_distinct_nonces_witness:
  "randomBytes IV_BYTES (\<lambda>i. 1) \<noteq> randomBytes IV_BYTES (\<lambda>i. 2) \<and>
   encryptToken demo_runtime demo_env (\<lambda>i. 1) (js ''ya29.a0'')
     \<noteq> encryptToken demo_runtime demo_env (\<lambda>i. 2) (js ''ya29.a0'')"
proof -
  have h: "randomBytes IV_BYTES (\<lambda>i. 1) \<noteq> randomBytes IV_BYTES (\<lambda>i. 2)"
    by (simp add: randomBytes_def IV_BYTES_def upt_rec)
  from encrypt_distinct_nonces[OF h, of demo_runtime demo_env "js ''ya29.a0''"] h
  show ?thesis by blast
qed

text \<open>
  C6. When the cipher's tag is 16 bytes long, the blob \<open>encryptToken\<close> returns is the
  base64url text of the 12-byte nonce, the 16-byte tag and the ciphertext, in that order:
  every character is URL-safe, and \<open>decryptToken\<close> cuts the decoded blob back into
  exactly these three parts and hands them to the decipher.
\<close>

theorem blob_layout:
  assumes "gcm_seal rt (getKey rt ev) (randomBytes IV_BYTES rnd) (utf8_encode T) = (enc, tag)"
    and "length tag = TAG_BYTES"
  shows "encryptToken rt ev rnd T = b64url_encode (randomBytes IV_BYTES rnd @ tag @ enc) \<and>
         length (randomBytes IV_BYTES rnd) = 12 \<and> length tag = 16 \<and>
         (\<forall>c\<in>set (encryptToken rt ev rnd T). url_safe c) \<and>
         splitBlob (b64url_decode (encryptToken rt ev rnd T)) = (randomBytes IV_BYTES rnd, tag, enc) \<and>
         decryptToken_try rt ev (encryptToken rt ev rnd T) =
           (case gcm_open rt (getKey rt ev) (randomBytes IV_BYTES rnd) tag enc of
              Thrown e \<Rightarrow> Thrown e
            | Returned pt \<Rightarrow> Returned (utf8_decode pt))"
proof -
  note blob = encryptToken_blob[OF assms(1)]
  have parts: "splitBlob (b64url_decode (encryptToken rt ev rnd T))
                 = (randomBytes IV_BYTES rnd, tag, enc)"
    unfolding blob b64url_roundtrip
    by (rule splitBlob_parts) (simp_all add: length_randomBytes assms(2))
  have safe: "\<forall>c\<in>set (encryptToken rt ev rnd T). url_safe c"
    unfolding blob by (rule b64url_encode_safe)
  show ?thesis
    using blob parts safe assms(2)
    by (simp add: length_randomBytes IV_BYTES_def TAG_BYTES_def decryptToken_try_def)
qed

theorem blob_layout_witness:
  "splitBlob (b64url_decode (encryptToken demo_runtime demo_env (\<lambda>i. 7) (js ''a'')))
     = ([7, 7, 7, 7, 7, 7, 7, 7, 7, 7, 7, 7], demo_tag (getKey demo_runtime demo_env) [0x62], [0x62])"
proof -
  have rb: "randomBytes IV_BYTES (\<lambda>i. 7) = [7, 7, 7, 7, 7, 7, 7, 7, 7, 7, 7, 7]"
    by (simp add: randomBytes_def IV_BYTES_def upt_rec)
  have seal: "gcm_seal demo_runtime (getKey demo_runtime demo_env) (randomBytes IV_BYTES (\<lambda>i. 7))
           (utf8_encode (js ''a'')) = ([0x62], demo_tag (getKey demo_runtime demo_env) [0x62])"
    by (simp add: demo_runtime_def demo_seal_def js_Nil js_Cons utf8_encode_def utf8_cp_def
        high_surrogate_def low_surrogate_def)
  have len: "length (demo_tag (getKey demo_runtime demo_env) [0x62]) = TAG_BYTES"
    by (simp add: TAG_BYTES_def demo_tag_def)
  from blob_layout[OF seal len, unfolded rb] show ?thesis by blast
qed

section \<open>The cached token\<close>

text \<open>
  Called without a request, as \<open>userStore.js\<close> and the routes call it, \<open>get\<close> of the
  second revision reads the in-memory map exactly as \<open>get\<close> of the first does.
\<close>

lemma tokenStore_get_jwt_no_request:
  "tokenStore_get_jwt rt ev now uid None mem
     = (case tokenStore_get now uid mem of (v, m) \<Rightarrow> (Returned v, m))"
  by (simp add: tokenStore_get_jwt_def req_blob_def mem_get_def tokenStore_get_def
      split: option.splits)




text \<open>
  C10. A user without a stored entry is reported as expiring soon: \<open>isExpiringSoon\<close> is
  \<open>true\<close> in the first revision, and in the second whenever the request carries no
  \<open>googleTokenExpiresAt\<close>.
\<close>

theorem isExpiringSoon_missing:
  assumes "mem uid = None"
  shows "tokenStore_isExpiringSoon now uid mem \<and>
         (req_exp req = None \<longrightarrow> tokenStore_isExpiringSoon_jwt now uid req mem)"
  using assms by (simp add: tokenStore_isExpiringSoon_def tokenStore_isExpiringSoon_jwt_def)

theorem isExpiringSoon_missing_witness:
  "tokenStore_isExpiringSoon 1000 (js ''a@x.com'') Map.empty \<and>
   tokenStore_isExpiringSoon_jwt 1000 (js ''a@x.com'') None Map.empty"
  using isExpiringSoon_missing[of Map.empty "js ''a@x.com''" 1000 None]
  by (simp add: req_exp_def)

section \<open>The routes\<close>

lemmas js_eval = js_Nil js_Cons

subsection \<open>The concrete instances, evaluated\<close>

lemma demo_toLowerCase: "toLowerCase demo_runtime = ascii_lower"
  by (simp add: demo_runtime_def)

lemma demo_normal:
  "js_trim (ascii_lower (js ''boss@x.com'')) = js ''boss@x.com''"
  "js_trim (ascii_lower (js ''random@y.com'')) = js ''random@y.com''"
  "js_trim (ascii_lower (js ''Boss@X.com '')) = js ''boss@x.com''"
  by (simp_all add: ascii_lower_def js_trim_def js_space_def js_eval)



lemma demo_random_email:
  "profile_email demo_runtime (demo_profile (js ''random@y.com'')) = Returned (js ''random@y.com'')"
  by (simp add: profile_email_def demo_profile_def demo_toLowerCase demo_normal)

lemma demo_bootstrap: "bootstrapAdmins demo_runtime demo_env = [js ''boss@x.com'']"
  by (simp add: bootstrapAdmins_def demo_env_def or_default_def demo_runtime_def ascii_lower_def
      js_trim_def js_space_def js_eval)

lemma demo_random_unlisted: "js ''random@y.com'' \<notin> set (bootstrapAdmins demo_runtime demo_env)"
  by (simp add: demo_bootstrap js_eval)

lemma demo_jwt_sign:
  "jwt_sign demo_runtime c (JWT_SECRET demo_env) x = Returned (js ''jwt:'' @ userId c)"
  by (simp add: demo_runtime_def demo_env_def)

lemma demo_expires: "or_default (JWT_EXPIRES_IN demo_env) (js ''8h'') = js ''8h''"
  by (simp add: demo_env_def or_default_def)

lemma demo_userinfo:
  "userinfo demo_world (JStr (js ''validTokenForBoss''))
     = Response 200 (Some (demo_profile (js ''Boss@X.com '')))"
  "userinfo demo_world (JStr (js ''validTokenForRandomUser''))
     = Response 200 (Some (demo_profile (js ''random@y.com'')))"
  "userinfo demo_world (JStr (js ''revokedTokenOfBoss''))
     = Response 401 (Some (demo_profile (js ''Boss@X.com '')))"
  by (simp_all add: demo_world_def js_eval)

lemma demo_rows:
  "rows_of demo_runtime
     (ValuesJson (Some [[js ''email'', js ''role'', js ''addedBy'', js ''addedAt''],
                        [js ''alice@x.com'', js ''user'', js ''boss@x.com'', js ''1/1'']]))
   = [\<lparr>rowIndex = 2, row_email = js ''alice@x.com'', row_role = js ''user'',
       addedBy = js ''boss@x.com'', addedAt = js ''1/1''\<rparr>]"
  by (simp add: rows_of_def sheet_values_def cell_def demo_toLowerCase ascii_lower_def
      js_trim_def js_space_def js_eval upt_rec)

lemma demo_roster:
  assumes "sheets demo_world GetValues t = Response code (Some j)"
  shows "js ''random@y.com'' \<notin> row_email ` set (rows_of demo_runtime j)"
proof -
  have "j = ValuesJson (Some [[js ''email'', js ''role'', js ''addedBy'', js ''addedAt''],
                              [js ''alice@x.com'', js ''user'', js ''boss@x.com'', js ''1/1'']])"
    using assms by (simp add: demo_world_def)
  then show ?thesis by (simp only: demo_rows) (simp add: js_eval)
qed

subsection \<open>Input validation of \<open>/verify\<close>\<close>





subsection \<open>Identity continuity of \<open>/refresh-google\<close>\<close>





subsection \<open>Bootstrap administrators\<close>

lemma bootstrapAdmins_nonempty: "x \<in> set (bootstrapAdmins rt ev) \<Longrightarrow> x \<noteq> []"
  by (auto simp: bootstrapAdmins_def)

lemma lookupUser_bootstrap:
  assumes "js_trim (toLowerCase rt em) = em" and "em \<in> set (bootstrapAdmins rt ev)"
  shows "lookupUser rt ev w now em st = (Returned (Some (BootstrapAdmin em)), st)"
  using assms by (simp add: lookupUser_def)

lemma verify_r1_issues:
  assumes "req_body req = Some b"
    and "truthy (googleAccessToken b)" and "is_string (googleAccessToken b)"
    and "userinfo w (googleAccessToken b) = Response code (Some p)" and "resp_ok code"
    and "profile_email rt p = Returned em" and "em \<noteq> []"
    and "jwt_sign rt (jwtPayload p em (if em \<in> set (bootstrapAdmins rt ev)
                                        then js ''admin'' else js ''user''))
           (JWT_SECRET ev) (or_default (JWT_EXPIRES_IN ev) (js ''8h'')) = Returned t"
  shows "fst (post_verify_r1 rt ev w now req st)
           = Returned \<lparr>status = 200,
                       body = SessionBody t
                                (jwtPayload p em (if em \<in> set (bootstrapAdmins rt ev)
                                                  then js ''admin'' else js ''user''))
                                (or_default (JWT_EXPIRES_IN ev) (js ''8h''))\<rparr>"
  using assms by (simp add: post_verify_r1_def Let_def)

text \<open>
  C7. Let a valid access token resolve to an address whose normalised form \<open>em\<close>
  (lower-cased, trimmed) is in the bootstrap administrator list, let normalising \<open>em\<close>
  again leave it unchanged (as \<open>toLowerCase\<close> and \<open>trim\<close> of JavaScript do), and let
  signing succeed. Then \<open>POST /verify\<close> answers 200 with a credential whose role is
  \<open>admin\<close> and whose subject is \<open>em\<close>, in both revisions, for every state of the token
  store, of the administrator pointer and of the roster cache, and whatever the
  spreadsheet API answers.
\<close>

theorem verify_bootstrap_admin:
  assumes "req_body req = Some b"
    and "truthy (googleAccessToken b)" and "is_string (googleAccessToken b)"
    and "userinfo w (googleAccessToken b) = Response code (Some p)" and "resp_ok code"
    and "p_email p = JStr raw" and "em = js_trim (toLowerCase rt raw)"
    and "em \<in> set (bootstrapAdmins rt ev)"
    and "js_trim (toLowerCase rt em) = em"
    and "jwt_sign rt (jwtPayload p em (js ''admin'')) (JWT_SECRET ev)
           (or_default (JWT_EXPIRES_IN ev) (js ''8h'')) = Returned t"
  shows "fst (post_verify_r2 rt ev w now req st)
           = Returned \<lparr>status = 200,
                       body = SessionBody t (jwtPayload p em (js ''admin''))
                                (or_default (JWT_EXPIRES_IN ev) (js ''8h''))\<rparr> \<and>
         fst (post_verify_r1 rt ev w now req st) = fst (post_verify_r2 rt ev w now req st) \<and>
         role (jwtPayload p em (js ''admin'')) = js ''admin'' \<and>
         userId (jwtPayload p em (js ''admin'')) = em"
proof -
  have pe: "profile_email rt p = Returned em"
    using assms(6,7) by (simp add: profile_email_def)
  have ne: "em \<noteq> []" using assms(8) by (rule bootstrapAdmins_nonempty)
  have r2: "fst (post_verify_r2 rt ev w now req st)
           = Returned \<lparr>status = 200,
                       body = SessionBody t (jwtPayload p em (js ''admin''))
                                (or_default (JWT_EXPIRES_IN ev) (js ''8h''))\<rparr>"
    using assms(1-5,8,10) pe ne
    by (simp add: post_verify_r2_def lookupUser_bootstrap[OF assms(9,8)] Let_def)
  have r1: "fst (post_verify_r1 rt ev w now req st)
           = Returned \<lparr>status = 200,
                       body = SessionBody t (jwtPayload p em (js ''admin''))
                                (or_default (JWT_EXPIRES_IN ev) (js ''8h''))\<rparr>"
    using verify_r1_issues[OF assms(1-5) pe ne, of ev t now st] assms(8,10) by simp
  show ?thesis using r1 r2 by (simp add: jwtPayload_def)
qed

theorem verify_bootstrap_admin_witness:
  "fst (post_verify_r2 demo_runtime demo_env demo_world 1000
          (demo_request None (JStr (js ''validTokenForBoss''))) cold_start)
     = Returned \<lparr>status = 200,
                 body = SessionBody (js ''jwt:'' @ js ''boss@x.com'')
                          (jwtPayload (demo_profile (js ''Boss@X.com '')) (js ''boss@x.com'')
                             (js ''admin''))
                          (js ''8h'')\<rparr> \<and>
   role (jwtPayload (demo_profile (js ''Boss@X.com '')) (js ''boss@x.com'') (js ''admin''))
     = js ''admin'' \<and>
   userId (jwtPayload (demo_profile (js ''Boss@X.com '')) (js ''boss@x.com'') (js ''admin''))
     = js ''boss@x.com''"
proof -
  let ?req = "demo_request None (JStr (js ''validTokenForBoss''))"
  let ?b = "\<lparr>googleAccessToken = JStr (js ''validTokenForBoss'')\<rparr>"
  have h0: "req_body ?req = Some ?b" by (simp add: demo_request_def)
  have h1: "truthy (googleAccessToken ?b)" and h2: "is_string (googleAccessToken ?b)"
    by (simp_all add: js_eval)
  have h3: "userinfo demo_world (googleAccessToken ?b)
              = Response 200 (Some (demo_profile (js ''Boss@X.com '')))"
    by (simp add: demo_userinfo)
  have h4: "resp_ok 200" by (simp add: resp_ok_def)
  have h5: "p_email (demo_profile (js ''Boss@X.com '')) = JStr (js ''Boss@X.com '')"
    by (simp add: demo_profile_def)
  have h6: "js ''boss@x.com'' = js_trim (toLowerCase demo_runtime (js ''Boss@X.com ''))"
    by (simp add: demo_toLowerCase demo_normal)
  have h7: "js ''boss@x.com'' \<in> set (bootstrapAdmins demo_runtime demo_env)"
    by (simp add: demo_bootstrap)
  have h8: "js_trim (toLowerCase demo_runtime (js ''boss@x.com'')) = js ''boss@x.com''"
    by (simp add: demo_toLowerCase demo_normal)
  have h9: "jwt_sign demo_runtime
              (jwtPayload (demo_profile (js ''Boss@X.com '')) (js ''boss@x.com'') (js ''admin''))
              (JWT_SECRET demo_env) (or_default (JWT_EXPIRES_IN demo_env) (js ''8h''))
            = Returned (js ''jwt:'' @ js ''boss@x.com'')"
    by (simp add: demo_jwt_sign jwtPayload_def)
  from verify_bootstrap_admin[OF h0 h1 h2 h3 h4 h5 h6 h7 h8 h9, of 1000 cold_start]
  show ?thesis by (simp only: demo_expires)
qed

subsection \<open>Identities outside the bootstrap list and the roster\<close>

text \<open>Reading the roster leaves the cache alone until \<open>refreshCache\<close> replaces it.\<close>

lemma admin_token_cache:
  "admin_token now st = (tok, s) \<Longrightarrow> cache s = cache st \<and> cacheTime s = cacheTime st"
  by (auto simp: admin_token_def split: option.splits if_splits prod.splits)

lemma sheetFetch_Returned:
  "sheetFetch w now call st = (Returned j, s) \<Longrightarrow> \<exists>t code. sheets w call t = Response code (Some j)"
  by (auto simp: sheetFetch_def Let_def split: prod.splits if_splits fetched.splits option.splits)

lemma readAllRows_Returned:
  "readAllRows rt w now st = (Returned rows, s) \<Longrightarrow>
   \<exists>t code j. sheets w GetValues t = Response code (Some j) \<and> rows = rows_of rt j"
  by (auto simp: readAllRows_def split: prod.splits outcome.splits dest!: sheetFetch_Returned)

lemma refreshCache_Returned:
  "refreshCache rt w now st = (Returned rows, s) \<Longrightarrow>
   cache s = Some (roster_map rows) \<and>
   (\<exists>t code j. sheets w GetValues t = Response code (Some j) \<and> rows = rows_of rt j)"
  by (auto simp: refreshCache_def split: prod.splits outcome.splits dest: readAllRows_Returned)

lemma roster_map_None: "em \<notin> row_email ` set rows \<Longrightarrow> roster_map rows em = None"
  by (simp add: roster_map_def map_of_eq_None_iff image_image)

lemma lookupUser_absent:
  assumes "js_trim (toLowerCase rt em) = em"
    and "em \<notin> set (bootstrapAdmins rt ev)"
    and "\<forall>c. cache st = Some c \<and> now - cacheTime st \<le> TTL_MS \<longrightarrow> c em = None"
    and "\<forall>t code j. sheets w GetValues t = Response code (Some j)
           \<longrightarrow> em \<notin> row_email ` set (rows_of rt j)"
  shows "fst (lookupUser rt ev w now em st) \<noteq> Returned (Some f)"
proof -
  obtain tok st1 where at: "admin_token now st = (tok, st1)" by (cases "admin_token now st")
  have c1: "cache st1 = cache st" and t1: "cacheTime st1 = cacheTime st"
    using admin_token_cache[OF at] by simp_all
  show ?thesis
  proof (cases "truthy tok")
    case False
    then show ?thesis using assms(1,2) at by (simp add: lookupUser_def)
  next
    case True
    show ?thesis
    proof (cases "cache st1 = None \<or> now - cacheTime st1 > TTL_MS")
      case False
      then obtain c where c: "cache st1 = Some c" and fresh: "now - cacheTime st1 \<le> TTL_MS"
        by auto
      then have "c em = None" using assms(3) c1 t1 by simp
      then show ?thesis using assms(1,2) at True False c by (simp add: lookupUser_def)
    next
      case refresh: True
      obtain r st2 where rc: "refreshCache rt w now st1 = (r, st2)"
        by (cases "refreshCache rt w now st1")
      show ?thesis
      proof (cases r)
        case (Thrown e)
        then show ?thesis using assms(1,2) at True refresh rc by (simp add: lookupUser_def)
      next
        case (Returned rows)
        from refreshCache_Returned[OF rc[unfolded Returned]] assms(4)
        have "cache st2 = Some (roster_map rows)" and "em \<notin> row_email ` set rows" by auto
        then show ?thesis
          using assms(1,2) at True refresh rc Returned
          by (simp add: lookupUser_def roster_map_None)
      qed
    qed
  qed
qed

text \<open>
  C4, as the code has it. In the revision of \<open>POST /verify\<close> that consults the roster
  (\<open>lookupUser\<close>): when the access token validates and the normalised identity \<open>em\<close> is
  in neither the bootstrap administrator list, nor any roster the spreadsheet API
  returns, nor the roster cached in the process while \<open>lookupUser\<close> still answers from
  it (a cache at most \<open>TTL_MS\<close> old), the answer is 403 with the access-denied message
  and carries no credential.
\<close>

theorem verify_unlisted_denied:
  assumes "req_body req = Some b"
    and "truthy (googleAccessToken b)" and "is_string (googleAccessToken b)"
    and "userinfo w (googleAccessToken b) = Response code (Some p)" and "resp_ok code"
    and "profile_email rt p = Returned em" and "em \<noteq> []"
    and "js_trim (toLowerCase rt em) = em"
    and "em \<notin> set (bootstrapAdmins rt ev)"
    and "\<forall>c. cache st = Some c \<and> now - cacheTime st \<le> TTL_MS \<longrightarrow> c em = None"
    and "\<forall>t code j. sheets w GetValues t = Response code (Some j)
           \<longrightarrow> em \<notin> row_email ` set (rows_of rt j)"
  shows "fst (post_verify_r2 rt ev w now req st)
           = Returned \<lparr>status = 403, body = ErrorBody msg_not_authorised\<rparr> \<and>
         credential_of (fst (post_verify_r2 rt ev w now req st)) = None"
proof -
  let ?st2 = "st\<lparr>calls := calls st @ [UserinfoCall (googleAccessToken b)],
                 store := tokenStore_set now em (googleAccessToken b) (store st)\<rparr>"
  have c: "\<forall>c. cache ?st2 = Some c \<and> now - cacheTime ?st2 \<le> TTL_MS \<longrightarrow> c em = None"
    using assms(10) by simp
  obtain r s where lu: "lookupUser rt ev w now em ?st2 = (r, s)"
    by (cases "lookupUser rt ev w now em ?st2")
  have nf: "r \<noteq> Returned (Some f)" for f
    using lookupUser_absent[OF assms(8,9) c assms(11), of f] lu by simp
  have r: "r = Returned None \<or> (\<exists>e. r = Thrown e)"
  proof (cases r)
    case (Returned x)
    with nf show ?thesis by (cases x) auto
  next
    case (Thrown e)
    then show ?thesis by simp
  qed
  have "fst (post_verify_r2 rt ev w now req st)
           = Returned \<lparr>status = 403, body = ErrorBody msg_not_authorised\<rparr>"
    using assms(1-7,9) lu r by (auto simp: post_verify_r2_def Let_def)
  then show ?thesis by (simp add: credential_of_def)
qed

theorem verify_unlisted_denied_witness:
  "fst (post_verify_r2 demo_runtime demo_env demo_world 1000
          (demo_request None (JStr (js ''validTokenForRandomUser''))) warm_admin)
     = Returned \<lparr>status = 403, body = ErrorBody msg_not_authorised\<rparr> \<and>
   credential_of (fst (post_verify_r2 demo_runtime demo_env demo_world 1000
          (demo_request None (JStr (js ''validTokenForRandomUser''))) warm_admin)) = None"
proof -
  let ?req = "demo_request None (JStr (js ''validTokenForRandomUser''))"
  let ?b = "\<lparr>googleAccessToken = JStr (js ''validTokenForRandomUser'')\<rparr>"
  have h0: "req_body ?req = Some ?b" by (simp add: demo_request_def)
  have h1: "truthy (googleAccessToken ?b)" and h2: "is_string (googleAccessToken ?b)"
    by (simp_all add: js_eval)
  have h3: "userinfo demo_world (googleAccessToken ?b)
              = Response 200 (Some (demo_profile (js ''random@y.com'')))"
    by (simp add: demo_userinfo)
  have h4: "resp_ok 200" by (simp add: resp_ok_def)
  have h6: "js ''random@y.com'' \<noteq> []" by (simp add: js_eval)
  have h7: "js_trim (toLowerCase demo_runtime (js ''random@y.com'')) = js ''random@y.com''"
    by (simp add: demo_toLowerCase demo_normal)
  have h9: "\<forall>c. cache warm_admin = Some c \<and> 1000 - cacheTime warm_admin \<le> TTL_MS
              \<longrightarrow> c (js ''random@y.com'') = None"
    by (simp add: warm_admin_def)
  have h10: "\<forall>t code j. sheets demo_world GetValues t = Response code (Some j)
           \<longrightarrow> js ''random@y.com'' \<notin> row_email ` set (rows_of demo_runtime j)"
    using demo_roster by blast
  from verify_unlisted_denied[OF h0 h1 h2 h3 h4 demo_random_email h6 h7 demo_random_unlisted
      h9 h10]
  show ?thesis .
qed

text \<open>
  C4 as stated fails on the first revision, which has no roster and gives every
  validated identity outside \<open>ADMIN_EMAILS\<close> the role \<open>user\<close>: \<open>random@y.com\<close> is not a
  bootstrap administrator, and \<open>POST /verify\<close> answers 200 with a signed credential.
\<close>

theorem verify_r1_unlisted_issued:
  "js ''random@y.com'' \<notin> set (bootstrapAdmins demo_runtime demo_env) \<and>
   fst (post_verify_r1 demo_runtime demo_env demo_world 1000
          (demo_request None (JStr (js ''validTokenForRandomUser''))) cold_start)
     = Returned \<lparr>status = 200,
                 body = SessionBody (js ''jwt:'' @ js ''random@y.com'')
                          (jwtPayload (demo_profile (js ''random@y.com'')) (js ''random@y.com'')
                             (js ''user''))
                          (js ''8h'')\<rparr> \<and>
   credential_of (fst (post_verify_r1 demo_runtime demo_env demo_world 1000
          (demo_request None (JStr (js ''validTokenForRandomUser''))) cold_start))
     = Some (js ''jwt:'' @ js ''random@y.com'')"
proof -
  let ?req = "demo_request None (JStr (js ''validTokenForRandomUser''))"
  let ?b = "\<lparr>googleAccessToken = JStr (js ''validTokenForRandomUser'')\<rparr>"
  have h0: "req_body ?req = Some ?b" by (simp add: demo_request_def)
  have h1: "truthy (googleAccessToken ?b)" and h2: "is_string (googleAccessToken ?b)"
    by (simp_all add: js_eval)
  have h3: "userinfo demo_world (googleAccessToken ?b)
              = Response 200 (Some (demo_profile (js ''random@y.com'')))"
    by (simp add: demo_userinfo)
  have h4: "resp_ok 200" by (simp add: resp_ok_def)
  have h6: "js ''random@y.com'' \<noteq> []" by (simp add: js_eval)
  have h7: "jwt_sign demo_runtime
              (jwtPayload (demo_profile (js ''random@y.com'')) (js ''random@y.com'')
                 (if js ''random@y.com'' \<in> set (bootstrapAdmins demo_runtime demo_env)
                  then js ''admin'' else js ''user''))
              (JWT_SECRET demo_env) (or_default (JWT_EXPIRES_IN demo_env) (js ''8h''))
            = Returned (js ''jwt:'' @ js ''random@y.com'')"
    by (simp add: demo_jwt_sign jwtPayload_def)
  from verify_r1_issues[OF h0 h1 h2 h3 h4 demo_random_email h6 h7, of 1000 cold_start]
    demo_random_unlisted
  show ?thesis by (simp add: demo_expires credential_of_def)
qed

text \<open>
  The roster \<open>lookupUser\<close> consults is the cached one while the cache is at most
  \<open>TTL_MS\<close> old: an identity the cache lists is admitted with the cached role, whatever
  the sheet holds by now.
\<close>

lemma lookupUser_cached:
  assumes "js_trim (toLowerCase rt em) = em"
    and "em \<notin> set (bootstrapAdmins rt ev)"
    and "admin_token now st = (tok, st1)" and "truthy tok"
    and "cache st = Some c" and "now - cacheTime st \<le> TTL_MS"
    and "c em = Some row"
  shows "lookupUser rt ev w now em st = (Returned (Some (RosterUser row)), st1)"
proof -
  have "cache st1 = Some c" and "cacheTime st1 = cacheTime st"
    using admin_token_cache[OF assms(3)] assms(5) by simp_all
  then show ?thesis using assms by (simp add: lookupUser_def)
qed

lemma verify_r2_issues:
  assumes "req_body req = Some b"
    and "truthy (googleAccessToken b)" and "is_string (googleAccessToken b)"
    and "userinfo w (googleAccessToken b) = Response code (Some p)" and "resp_ok code"
    and "profile_email rt p = Returned em" and "em \<noteq> []"
    and "em \<notin> set (bootstrapAdmins rt ev)"
    and "lookupUser rt ev w now em
           (st\<lparr>calls := calls st @ [UserinfoCall (googleAccessToken b)],
               store := tokenStore_set now em (googleAccessToken b) (store st)\<rparr>)
         = (Returned (Some found), s)"
    and "jwt_sign rt (jwtPayload p em (found_role found)) (JWT_SECRET ev)
           (or_default (JWT_EXPIRES_IN ev) (js ''8h'')) = Returned t"
  shows "fst (post_verify_r2 rt ev w now req st)
           = Returned \<lparr>status = 200,
                       body = SessionBody t (jwtPayload p em (found_role found))
                                (or_default (JWT_EXPIRES_IN ev) (js ''8h''))\<rparr>"
  using assms by (simp add: post_verify_r2_def Let_def)

lemma verify_r2_cached_roster_issued:
  "js ''random@y.com'' \<notin> set (bootstrapAdmins demo_runtime demo_env) \<and>
   (\<forall>t code j. sheets demo_world GetValues t = Response code (Some j)
      \<longrightarrow> js ''random@y.com'' \<notin> row_email ` set (rows_of demo_runtime j)) \<and>
   credential_of (fst (post_verify_r2 demo_runtime demo_env demo_world 1000
          (demo_request None (JStr (js ''validTokenForRandomUser''))) warm_cached))
     = Some (js ''jwt:'' @ js ''random@y.com'')"
proof -
  let ?req = "demo_request None (JStr (js ''validTokenForRandomUser''))"
  let ?b = "\<lparr>googleAccessToken = JStr (js ''validTokenForRandomUser'')\<rparr>"
  let ?row = "\<lparr>rowIndex = 3, row_email = js ''random@y.com'', row_role = js ''user'',
               addedBy = js ''boss@x.com'', addedAt = js ''1/1''\<rparr>"
  let ?st = "warm_cached\<lparr>calls := calls warm_cached @ [UserinfoCall (googleAccessToken ?b)],
               store := tokenStore_set 1000 (js ''random@y.com'') (googleAccessToken ?b)
                          (store warm_cached)\<rparr>"
  have h0: "req_body ?req = Some ?b" by (simp add: demo_request_def)
  have h1: "truthy (googleAccessToken ?b)" and h2: "is_string (googleAccessToken ?b)"
    by (simp_all add: js_eval)
  have h3: "userinfo demo_world (googleAccessToken ?b)
              = Response 200 (Some (demo_profile (js ''random@y.com'')))"
    by (simp add: demo_userinfo)
  have h4: "resp_ok 200" by (simp add: resp_ok_def)
  have h6: "js ''random@y.com'' \<noteq> []" by (simp add: js_eval)
  have h7: "js_trim (toLowerCase demo_runtime (js ''random@y.com'')) = js ''random@y.com''"
    by (simp add: demo_toLowerCase demo_normal)
  have at: "admin_token 1000 ?st = (JStr (js ''validTokenForBoss''), ?st)"
    by (simp add: admin_token_def warm_cached_def warm_admin_def tokenStore_get_def
        tokenStore_set_def js_eval)
  have tr: "truthy (JStr (js ''validTokenForBoss''))" by (simp add: js_eval)
  have c: "cache ?st = Some [js ''random@y.com'' \<mapsto> ?row]"
    and ct: "1000 - cacheTime ?st \<le> TTL_MS"
    by (simp_all add: warm_cached_def TTL_MS_def)
  have lu: "lookupUser demo_runtime demo_env demo_world 1000 (js ''random@y.com'') ?st
              = (Returned (Some (RosterUser ?row)), ?st)"
    by (rule lookupUser_cached[OF h7 demo_random_unlisted at tr c ct]) simp
  have sg: "jwt_sign demo_runtime
              (jwtPayload (demo_profile (js ''random@y.com'')) (js ''random@y.com'')
                 (found_role (RosterUser ?row)))
              (JWT_SECRET demo_env) (or_default (JWT_EXPIRES_IN demo_env) (js ''8h''))
            = Returned (js ''jwt:'' @ js ''random@y.com'')"
    by (simp add: demo_jwt_sign jwtPayload_def)
  from verify_r2_issues[OF h0 h1 h2 h3 h4 demo_random_email h6 demo_random_unlisted lu sg]
    demo_random_unlisted demo_roster
  show ?thesis by (simp add: credential_of_def)
qed

end
